theory Spec2Isabelle
  imports Main "HOL-Library.Word"
begin

section \<open>Library functions the provider calls\<close>

text \<open>
  Go strings are byte sequences; \<^typ>\<open>string\<close> is a list of 8-bit characters, so the
  two coincide. The functions of this section are those of the Go standard library that
  \<^verbatim>\<open>provider.go\<close> calls on strings; each follows the library's own control flow.
\<close>

subsection \<open>strings.TrimSuffix, strings.TrimRight, strings.Join\<close>

definition HasSuffix :: "string \<Rightarrow> string \<Rightarrow> bool" where
  "HasSuffix s suf \<longleftrightarrow>
     length suf \<le> length s \<and> drop (length s - length suf) s = suf"

definition TrimSuffix :: "string \<Rightarrow> string \<Rightarrow> string" where
  "TrimSuffix s suf =
     (if HasSuffix s suf then take (length s - length suf) s else s)"

definition TrimRight :: "string \<Rightarrow> string \<Rightarrow> string" where
  "TrimRight s cutset = rev (dropWhile (\<lambda>c. c \<in> set cutset) (rev s))"

text \<open>
  \<^verbatim>\<open>strings.Join\<close>: the empty string for no element, the element itself for one,
  otherwise the first element followed, for each further element in turn, by the
  separator and the element (the library's builder loop).
\<close>

definition Join :: "string list \<Rightarrow> string \<Rightarrow> string" where
  "Join elems sep =
     (case elems of
        [] \<Rightarrow> []
      | e # es \<Rightarrow> foldl (\<lambda>b s. b @ sep @ s) e es)"

subsection \<open>strings.Fields\<close>

text \<open>
  \<^verbatim>\<open>strings.Fields\<close> splits around runs of white space as \<^verbatim>\<open>unicode.IsSpace\<close>
  defines it: the ASCII characters tab, line feed, vertical tab, form feed, carriage
  return and space, and the code points U+0085, U+00A0, U+1680, U+2000 to U+200A,
  U+2028, U+2029, U+202F, U+205F and U+3000 in their UTF-8 encoding. The lead byte of
  such an encoding is never a continuation byte, so the decoder of the library always
  starts a rune on it. \<open>space_width\<close> is the number of bytes of the white-space rune at
  the head of a string, and 0 when the string does not start with one.
\<close>

definition space_width :: "string \<Rightarrow> nat" where
  "space_width s =
     (case map of_char s of
        [] \<Rightarrow> 0
      | (b0 :: nat) # bs \<Rightarrow>
          if b0 = 9 \<or> b0 = 10 \<or> b0 = 11 \<or> b0 = 12 \<or> b0 = 13 \<or> b0 = 32 then 1
          else if b0 = 0xC2 then
            (case bs of
               b1 # _ \<Rightarrow> if b1 = 0x85 \<or> b1 = 0xA0 then 2 else 0
             | [] \<Rightarrow> 0)
          else if b0 = 0xE1 then
            (case bs of
               b1 # b2 # _ \<Rightarrow> if b1 = 0x9A \<and> b2 = 0x80 then 3 else 0
             | _ \<Rightarrow> 0)
          else if b0 = 0xE2 then
            (case bs of
               b1 # b2 # _ \<Rightarrow>
                 if b1 = 0x80 \<and> (0x80 \<le> b2 \<and> b2 \<le> 0x8A \<or> b2 = 0xA8 \<or> b2 = 0xA9 \<or> b2 = 0xAF)
                 then 3
                 else if b1 = 0x81 \<and> b2 = 0x9F then 3 else 0
             | _ \<Rightarrow> 0)
          else if b0 = 0xE3 then
            (case bs of
               b1 # b2 # _ \<Rightarrow> if b1 = 0x80 \<and> b2 = 0x80 then 3 else 0
             | _ \<Rightarrow> 0)
          else 0)"

text \<open>
  The scan of \<^verbatim>\<open>Fields\<close>: \<open>skip\<close> counts the bytes of the current white-space rune
  still to pass over, \<open>cur\<close> is the field being collected; a field is emitted when white
  space or the end of the string closes it, and empty fields are never emitted.
\<close>

definition flush :: "string \<Rightarrow> string list" where
  "flush cur = (if cur = [] then [] else [cur])"

fun fields_scan :: "nat \<Rightarrow> string \<Rightarrow> string \<Rightarrow> string list" where
  "fields_scan skip cur [] = flush cur"
| "fields_scan (Suc k) cur (c # cs) = fields_scan k cur cs"
| "fields_scan 0 cur (c # cs) =
     (let n = space_width (c # cs)
      in if n = 0 then fields_scan 0 (cur @ [c]) cs
         else flush cur @ fields_scan (n - 1) [] cs)"

definition Fields :: "string \<Rightarrow> string list" where
  "Fields s = fields_scan 0 [] s"

subsection \<open>strconv.Itoa\<close>

definition digit_char :: "nat \<Rightarrow> char" where
  "digit_char d = ''0123456789'' ! d"

function decimal :: "nat \<Rightarrow> string" where
  "decimal n = (if n < 10 then [digit_char n] else decimal (n div 10) @ [digit_char (n mod 10)])"
  by pat_completeness auto
termination
  by (relation "measure id") auto

declare decimal.simps [simp del]

definition Itoa :: "int \<Rightarrow> string" where
  "Itoa i = (if i < 0 then CHR ''-'' # decimal (nat (- i)) else decimal (nat i))"

subsection \<open>encoding/base64, StdEncoding\<close>

definition encodeStd :: string where
  "encodeStd = ''ABCDEFGHIJKLMNOPQRSTUVWXYZabcdefghijklmnopqrstuvwxyz0123456789+/''"

definition padChar :: char where
  "padChar = CHR ''=''"

fun index_of :: "'a \<Rightarrow> 'a list \<Rightarrow> nat option" where
  "index_of x [] = None"
| "index_of x (y # ys) =
     (if x = y then Some 0 else map_option Suc (index_of x ys))"

text \<open>The decoder's table: the 6-bit value of an alphabet character, nothing for any other.\<close>

definition decodeMap :: "char \<Rightarrow> nat option" where
  "decodeMap c = index_of c encodeStd"

definition is_newline :: "char \<Rightarrow> bool" where
  "is_newline c \<longleftrightarrow> c = CHR 0x0A \<or> c = CHR 0x0D"

fun skip_newlines :: "string \<Rightarrow> string" where
  "skip_newlines [] = []"
| "skip_newlines (c # cs) = (if is_newline c then skip_newlines cs else c # cs)"

text \<open>
  The bytes of one quantum: the 6-bit values read so far (2, 3 or 4 of them, the rest
  taken as 0) are packed into 24 bits, of which the first \<open>length dbuf - 1\<close> bytes are
  written.
\<close>

definition quantum :: "nat list \<Rightarrow> string" where
  "quantum dbuf =
     (let val = foldl (\<lambda>a d. a * 64 + d) 0 (take 4 (dbuf @ [0, 0, 0, 0]))
      in take (length dbuf - 1)
           [char_of (val div 65536), char_of (val div 256), char_of val])"

text \<open>
  \<^verbatim>\<open>StdEncoding.DecodeString\<close> (padded, not strict): the result is the bytes decoded
  and whether the input was well formed. On corrupt input the library returns the bytes
  of the quanta completed before the fault together with the error, and the model does
  the same. \<open>dbuf\<close> holds the values of the current quantum. Line feeds and carriage
  returns are skipped. A padding character closes the input: it is corrupt after fewer
  than two values, after two values a second padding character must follow, and after
  the padding only newlines may follow (the quantum's bytes are still written when
  something else does).
\<close>

fun decode_from :: "nat list \<Rightarrow> string \<Rightarrow> string \<times> bool" where
  "decode_from dbuf [] = ([], dbuf = [])"
| "decode_from dbuf (c # cs) =
     (case decodeMap c of
        Some v \<Rightarrow>
          if length dbuf = 3
          then (let (bs, ok) = decode_from [] cs in (quantum (dbuf @ [v]) @ bs, ok))
          else decode_from (dbuf @ [v]) cs
      | None \<Rightarrow>
          if is_newline c then decode_from dbuf cs
          else if c \<noteq> padChar then ([], False)
          else if length dbuf < 2 then ([], False)
          else if length dbuf = 2 then
            (case skip_newlines cs of
               [] \<Rightarrow> ([], False)
             | d # ds \<Rightarrow>
                 if d \<noteq> padChar then ([], False)
                 else (quantum dbuf, skip_newlines ds = []))
          else (quantum dbuf, skip_newlines cs = []))"

definition DecodeString :: "string \<Rightarrow> string \<times> bool" where
  "DecodeString s = decode_from [] s"

text \<open>
  The encoder of the same encoding (RFC 4648, standard alphabet, padded): what a remote
  that stores a name or a value sends back for it.
\<close>

definition enc6 :: "nat \<Rightarrow> char" where
  "enc6 v = encodeStd ! (v mod 64)"

fun EncodeToString :: "string \<Rightarrow> string" where
  "EncodeToString [] = []"
| "EncodeToString [a] =
     (let val = of_char a * 65536
      in [enc6 (val div 262144), enc6 (val div 4096), padChar, padChar])"
| "EncodeToString [a, b] =
     (let val = of_char a * 65536 + of_char b * 256
      in [enc6 (val div 262144), enc6 (val div 4096), enc6 (val div 64), padChar])"
| "EncodeToString (a # b # c # rest) =
     (let val = of_char a * 65536 + of_char b * 256 + of_char c
      in [enc6 (val div 262144), enc6 (val div 4096), enc6 (val div 64), enc6 val]
         @ EncodeToString rest)"

declare EncodeToString.simps [simp del]


section \<open>Data model\<close>

text \<open>
  \<^verbatim>\<open>libdns.Record\<close> as the provider uses it: type, zone-relative name, value, a 32-bit
  unsigned time-to-live and a string-to-string metadata map. Indexing a Go map at a
  missing key gives the empty string (\<open>meta\<close>).
\<close>

record Record =
  Type :: string
  Name :: string
  Value :: string
  TTL :: "32 word"
  Metadata :: "string \<rightharpoonup> string"

definition meta :: "Record \<Rightarrow> string \<Rightarrow> string" where
  "meta r k = (case Metadata r k of None \<Rightarrow> [] | Some v \<Rightarrow> v)"

text \<open>
  \<^verbatim>\<open>parseZoneEntry\<close>, one line of the result of \<^verbatim>\<open>DNS::parse_zone\<close>. Go's
  \<^verbatim>\<open>int\<close> is taken as 64 bits wide and read signed.
\<close>

record parseZoneEntry =
  LineIndex :: "64 word"
  RecordType :: string
  EntryTTL :: "64 word"
  DNameB64 :: string
  DataB64 :: "string list"

record Provider =
  Host :: string
  Username :: string
  APIToken :: string

text \<open>One element of the \<^verbatim>\<open>add\<close> list of \<^verbatim>\<open>AppendRecords\<close> (a map with four keys).\<close>

record add_entry =
  record_type :: string
  dname :: string
  ttl :: "32 word"
  data :: "string list"

section \<open>Transport\<close>

text \<open>
  A query parameter is a string. The \<^verbatim>\<open>add\<close> and \<^verbatim>\<open>remove\<close> parameters are the
  JSON texts of a list; they are kept as the lists that \<^verbatim>\<open>json.Marshal\<close> is given.
\<close>

datatype param = Text string | AddList "add_entry list" | RemoveList "string list"

record request =
  host :: string
  username :: string
  token :: string
  rmodule :: string
  rfunction :: string
  params :: "(string \<times> param) list"

text \<open>
  What one run of \<^verbatim>\<open>dial\<close> meets, as \<^verbatim>\<open>dial\<close> and \<^verbatim>\<open>GetRecords\<close> observe it:
  \<^item> \<open>Unbuilt\<close>: \<^verbatim>\<open>NewRequestWithContext\<close> returned an error (a URL that does not
    parse, for instance); \<^verbatim>\<open>dial\<close> returns before \<^verbatim>\<open>http.DefaultClient.Do\<close>, and nothing
    is sent;
  \<^item> \<open>Failed\<close>: the request was handed to \<^verbatim>\<open>Do\<close>, which returned an error;
  \<^item> \<open>Garbled\<close>: the body does not decode as the envelope;
  \<^item> \<open>Envelope status data\<close>: the envelope's two fields. The data is represented by
    what \<^verbatim>\<open>json.Unmarshal\<close> into a slice of \<^verbatim>\<open>parseZoneEntry\<close> makes of it: an error
    (\<open>Unparsable\<close>) or the entries.
\<close>

datatype payload = Unparsable | Entries "parseZoneEntry list"

datatype reply = Unbuilt | Failed | Garbled | Envelope int payload

datatype error =
  RequestNotBuilt | RequestFailed | EnvelopeDecodeFailed | APICallFailed | EntriesDecodeFailed

text \<open>
  What lies beyond \<^verbatim>\<open>dial\<close> (the HTTP client, the network and the remote service) is a
  parameter: a function from a request and the remote's state to what \<^verbatim>\<open>dial\<close> meets
  and the remote's new state. The world the provider runs in is the remote's state
  together with two logs, both in order: \<open>calls\<close>, the requests \<^verbatim>\<open>dial\<close> was run for,
  and \<open>sent\<close>, the requests handed to \<^verbatim>\<open>http.DefaultClient.Do\<close>, that is, the network
  calls made.
\<close>

type_synonym 'w service = "request \<Rightarrow> 'w \<Rightarrow> reply \<times> 'w"

record 'w world =
  remote :: 'w
  calls :: "request list"
  sent :: "request list"

definition mk_request :: "Provider \<Rightarrow> string \<Rightarrow> string \<Rightarrow> (string \<times> param) list \<Rightarrow> request" where
  "mk_request p module func ps =
     \<lparr>host = TrimRight (Host p) ''/'', username = Username p, token = APIToken p,
      rmodule = module, rfunction = func, params = ps\<rparr>"

text \<open>\<open>accepted\<close>: the reply is an envelope with status 1.\<close>

definition accepted :: "reply \<Rightarrow> bool" where
  "accepted rep = (case rep of Envelope status dat \<Rightarrow> status = 1 | _ \<Rightarrow> False)"

text \<open>
  \<^verbatim>\<open>dial\<close>: one GET. The four error returns and the successful one follow the source
  in order. When the request cannot be built, \<^verbatim>\<open>dial\<close> returns at once: nothing is
  sent and the remote stays as it was. On every other path the request has been handed
  to \<^verbatim>\<open>Do\<close>.
\<close>

definition dial ::
  "'w service \<Rightarrow> Provider \<Rightarrow> string \<Rightarrow> string \<Rightarrow> (string \<times> param) list \<Rightarrow> 'w world
     \<Rightarrow> (error + payload) \<times> 'w world" where
  "dial srv p module func ps s =
     (let req = mk_request p module func ps;
          (rep, w') = srv req (remote s);
          s' = \<lparr>remote = w', calls = calls s @ [req], sent = sent s @ [req]\<rparr>
      in case rep of
           Unbuilt \<Rightarrow>
             (Inl RequestNotBuilt, \<lparr>remote = remote s, calls = calls s @ [req], sent = sent s\<rparr>)
         | Failed \<Rightarrow> (Inl RequestFailed, s')
         | Garbled \<Rightarrow> (Inl EnvelopeDecodeFailed, s')
         | Envelope status dat \<Rightarrow>
             if status \<noteq> 1 then (Inl APICallFailed, s') else (Inr dat, s'))"

section \<open>GetRecords\<close>

text \<open>
  The body of the loop over the entries. Both calls of \<^verbatim>\<open>DecodeString\<close> drop the
  error result and keep the bytes.
\<close>

definition entry_record :: "string \<Rightarrow> parseZoneEntry \<Rightarrow> Record" where
  "entry_record zone e =
     (let nameBytes = fst (DecodeString (DNameB64 e));
          dataParts = map (\<lambda>d. fst (DecodeString d)) (DataB64 e)
      in \<lparr>Type = RecordType e,
          Name = TrimSuffix nameBytes (''.'' @ zone),
          Value = Join dataParts '' '',
          TTL = ucast (EntryTTL e),
          Metadata = [''line_index'' \<mapsto> Itoa (sint (LineIndex e))]\<rparr>)"

definition GetRecords ::
  "'w service \<Rightarrow> Provider \<Rightarrow> string \<Rightarrow> 'w world \<Rightarrow> (error + Record list) \<times> 'w world" where
  "GetRecords srv p zone s =
     (case dial srv p ''DNS'' ''parse_zone'' [(''zone'', Text zone)] s of
        (Inl err, s1) \<Rightarrow> (Inl err, s1)
      | (Inr raw, s1) \<Rightarrow>
          (case raw of
             Unparsable \<Rightarrow> (Inl EntriesDecodeFailed, s1)
           | Entries entries \<Rightarrow> (Inr (map (entry_record zone) entries), s1)))"

section \<open>AppendRecords\<close>

text \<open>
  The block both writers run on an SOA record: the serial becomes the third
  white-space-separated field of the value when there are at least three fields, and stays
  as it was otherwise.
\<close>

definition third_field :: "string \<Rightarrow> string \<Rightarrow> string" where
  "third_field serial v = (let parts = Fields v in if 3 \<le> length parts then parts ! 2 else serial)"

text \<open>The scan for the serial: the first record of type SOA ends the loop.\<close>

fun current_serial :: "string \<Rightarrow> Record list \<Rightarrow> string" where
  "current_serial serial [] = serial"
| "current_serial serial (r # rs) =
     (if Type r = ''SOA'' then third_field serial (Value r) else current_serial serial rs)"

definition add_list :: "string \<Rightarrow> Record list \<Rightarrow> add_entry list" where
  "add_list zone records =
     foldl (\<lambda>add r. add @ [\<lparr>record_type = Type r, dname = Name r @ ''.'' @ zone,
                              ttl = TTL r, data = [Value r]\<rparr>]) [] records"

definition AppendRecords ::
  "'w service \<Rightarrow> Provider \<Rightarrow> string \<Rightarrow> Record list \<Rightarrow> 'w world
     \<Rightarrow> (error + Record list) \<times> 'w world" where
  "AppendRecords srv p zone records s =
     (case GetRecords srv p zone s of
        (Inl err, s1) \<Rightarrow> (Inl err, s1)
      | (Inr existing, s1) \<Rightarrow>
          (let serial = current_serial ''0'' existing;
               add = add_list zone records;
               ps = [(''zone'', Text zone), (''serial'', Text serial), (''add'', AddList add)]
           in case dial srv p ''DNS'' ''mass_edit_zone'' ps s1 of
                (Inl err, s2) \<Rightarrow> (Inl err, s2)
              | (Inr _, s2) \<Rightarrow> (Inr records, s2)))"

section \<open>DeleteRecords\<close>

definition matches :: "Record \<Rightarrow> Record \<Rightarrow> bool" where
  "matches r ex \<longleftrightarrow> Type r = Type ex \<and> Name r = Name ex \<and> Value r = Value ex"

text \<open>
  The deletion targets, in the words of the specification: for each input record in
  turn, the existing records that match it, in zone order.
\<close>

definition deletion_targets :: "Record list \<Rightarrow> Record list \<Rightarrow> Record list" where
  "deletion_targets records existing = concat (map (\<lambda>r. filter (matches r) existing) records)"

text \<open>
  The two nested loops, on the pair of the serial and the removal list. The inner loop
  runs over the existing records for one input record, the outer one over the input
  records.
\<close>

fun scan_existing :: "Record \<Rightarrow> Record list \<Rightarrow> string \<times> string list \<Rightarrow> string \<times> string list" where
  "scan_existing r [] st = st"
| "scan_existing r (ex # exs) (serial, toRemove) =
     (if matches r ex
      then scan_existing r exs
             (if Type ex = ''SOA'' then third_field serial (Value ex) else serial,
              toRemove @ [meta ex ''line_index''])
      else scan_existing r exs (serial, toRemove))"

fun scan_records :: "Record list \<Rightarrow> Record list \<Rightarrow> string \<times> string list \<Rightarrow> string \<times> string list" where
  "scan_records [] existing st = st"
| "scan_records (r # rs) existing st = scan_records rs existing (scan_existing r existing st)"

definition DeleteRecords ::
  "'w service \<Rightarrow> Provider \<Rightarrow> string \<Rightarrow> Record list \<Rightarrow> 'w world
     \<Rightarrow> (error + Record list) \<times> 'w world" where
  "DeleteRecords srv p zone records s =
     (case GetRecords srv p zone s of
        (Inl err, s1) \<Rightarrow> (Inl err, s1)
      | (Inr existing, s1) \<Rightarrow>
          (let (serial, toRemove) = scan_records records existing (''0'', []);
               ps = [(''zone'', Text zone), (''serial'', Text serial),
                     (''remove'', RemoveList toRemove)]
           in case dial srv p ''DNS'' ''mass_edit_zone'' ps s1 of
                (Inl err, s2) \<Rightarrow> (Inl err, s2)
              | (Inr _, s2) \<Rightarrow> (Inr records, s2)))"

section \<open>SetRecords\<close>

definition SetRecords ::
  "'w service \<Rightarrow> Provider \<Rightarrow> string \<Rightarrow> Record list \<Rightarrow> 'w world
     \<Rightarrow> (error + Record list) \<times> 'w world" where
  "SetRecords srv p zone records s =
     (case DeleteRecords srv p zone records s of
        (Inl err, s1) \<Rightarrow> (Inl err, s1)
      | (Inr _, s1) \<Rightarrow> AppendRecords srv p zone records s1)"


section \<open>A remote that echoes what it stored\<close>

text \<open>
  A test double for the remote service, used to run the operations on concrete zones. It
  keeps the lines of one zone file. \<^verbatim>\<open>parse_zone\<close> returns them;
  \<^verbatim>\<open>mass_edit_zone\<close> drops the lines whose index is in the \<^verbatim>\<open>remove\<close> list and
  stores each element of the \<^verbatim>\<open>add\<close> list as a new line: the name and the single
  data element base64-encoded, type and time-to-live as given. It does not check the
  serial. \<open>budget\<close> is the number of requests it still answers; after that every
  request fails in transport and changes nothing.
\<close>

record zone_file =
  entries :: "parseZoneEntry list"
  budget :: nat

definition stored :: "64 word \<Rightarrow> add_entry \<Rightarrow> parseZoneEntry" where
  "stored i a =
     \<lparr>LineIndex = i, RecordType = record_type a, EntryTTL = ucast (ttl a),
      DNameB64 = EncodeToString (dname a), DataB64 = map EncodeToString (data a)\<rparr>"

definition removal_of :: "request \<Rightarrow> string list" where
  "removal_of req = (case map_of (params req) ''remove'' of Some (RemoveList ls) \<Rightarrow> ls | _ \<Rightarrow> [])"

definition additions_of :: "request \<Rightarrow> add_entry list" where
  "additions_of req = (case map_of (params req) ''add'' of Some (AddList as) \<Rightarrow> as | _ \<Rightarrow> [])"

definition echo_remote :: "zone_file service" where
  "echo_remote req z =
     (if budget z = 0 then (Failed, z)
      else if rfunction req = ''parse_zone''
        then (Envelope 1 (Entries (entries z)), z\<lparr>budget := budget z - 1\<rparr>)
      else if rfunction req = ''mass_edit_zone''
        then (let kept = filter (\<lambda>e. Itoa (sint (LineIndex e)) \<notin> set (removal_of req)) (entries z);
                  new = map (\<lambda>(k, a). stored (of_nat k) a)
                          (enumerate (length (entries z)) (additions_of req))
              in (Envelope 1 (Entries []), \<lparr>entries = kept @ new, budget = budget z - 1\<rparr>))
      else (Envelope 0 Unparsable, z\<lparr>budget := budget z - 1\<rparr>))"

text \<open>
  The zone \<^verbatim>\<open>example.com.\<close> of the scenarios: an A record for \<^verbatim>\<open>www\<close> on line 0 and
  the SOA record, with serial 42, on line 1.
\<close>

definition example_zone :: string where
  "example_zone = ''example.com.''"

definition example_entries :: "parseZoneEntry list" where
  "example_entries =
     [\<lparr>LineIndex = 0, RecordType = ''A'', EntryTTL = 300,
       DNameB64 = EncodeToString ''www.example.com.'',
       DataB64 = [EncodeToString ''1.2.3.4'']\<rparr>,
      \<lparr>LineIndex = 1, RecordType = ''SOA'', EntryTTL = 86400,
       DNameB64 = [],
       DataB64 = map EncodeToString [''ns1'', ''admin'', ''42'', ''...'']\<rparr>]"

definition zone_world :: "parseZoneEntry list \<Rightarrow> nat \<Rightarrow> zone_file world" where
  "zone_world es n = \<lparr>remote = \<lparr>entries = es, budget = n\<rparr>, calls = [], sent = []\<rparr>"

definition example_world :: "nat \<Rightarrow> zone_file world" where
  "example_world n = zone_world example_entries n"

text \<open>
  A zone line whose name has a character outside the alphabet after one quantum, and
  whose value fragment lacks its padding.
\<close>

definition corrupt_entries :: "parseZoneEntry list" where
  "corrupt_entries =
     [\<lparr>LineIndex = 7, RecordType = ''A'', EntryTTL = 300,
       DNameB64 = ''d3d3!'', DataB64 = [''MS4yLjMuNA'']\<rparr>]"

text \<open>
  A zone line whose decoded name carries the zone suffix twice, with a value in two
  fragments.
\<close>

definition doubled_entry :: parseZoneEntry where
  "doubled_entry =
     \<lparr>LineIndex = 3, RecordType = ''TXT'', EntryTTL = 60,
      DNameB64 = EncodeToString ''a.example.com..example.com.'',
      DataB64 = map EncodeToString [''first'', ''second'']\<rparr>"

text \<open>The example zone with the line of \<^verbatim>\<open>www\<close> repeated on line 2.\<close>

definition duplicate_entries :: "parseZoneEntry list" where
  "duplicate_entries =
     example_entries @
     [\<lparr>LineIndex = 2, RecordType = ''A'', EntryTTL = 300,
       DNameB64 = EncodeToString ''www.example.com.'',
       DataB64 = [EncodeToString ''1.2.3.4'']\<rparr>]"

text \<open>
  The same remote behind a client that cannot build a request for a host with a space in
  it, as Go's URL parser cannot; and a provider configured with such a host.
\<close>

definition picky_remote :: "zone_file service" where
  "picky_remote req z = (if CHR '' '' \<in> set (host req) then (Unbuilt, z) else echo_remote req z)"

definition broken_provider :: Provider where
  "broken_provider = \<lparr>Host = ''http://exa mple.com'', Username = ''user'',
                        APIToken = ''secret''\<rparr>"

definition example_provider :: Provider where
  "example_provider = \<lparr>Host = ''https://panel.example.com:2083/'', Username = ''user'',
                         APIToken = ''secret''\<rparr>"

definition record_www :: Record where
  "record_www = \<lparr>Type = ''A'', Name = ''www'', Value = ''1.2.3.4'', TTL = 300,
                   Metadata = Map.empty\<rparr>"

definition record_soa :: Record where
  "record_soa = \<lparr>Type = ''SOA'', Name = [], Value = ''ns1 admin 42 ...'', TTL = 86400,
                   Metadata = Map.empty\<rparr>"

definition record_blog :: Record where
  "record_blog = \<lparr>Type = ''CNAME'', Name = ''blog'', Value = ''www.example.com.'', TTL = 300,
                    Metadata = Map.empty\<rparr>"

text \<open>The serial parameter of each request of a log, in order.\<close>

definition serials :: "request list \<Rightarrow> param option list" where
  "serials reqs = map (\<lambda>q. map_of (params q) ''serial'') reqs"


text \<open>The four fields of a record that a round trip is to preserve.\<close>

definition core :: "Record \<Rightarrow> string \<times> string \<times> string \<times> 32 word" where
  "core r = (Type r, Name r, Value r, TTL r)"


section \<open>Facts about the library functions\<close>

subsection \<open>Base64: decoding inverts encoding\<close>

lemma pack4:
  assumes "val < (16777216::nat)"
  shows "((val div 262144 mod 64 * 64 + val div 4096 mod 64) * 64 + val div 64 mod 64) * 64
           + val mod 64 = val"
proof -
  define q1 where "q1 = val div 64"
  define q2 where "q2 = q1 div 64"
  define q3 where "q3 = q2 div 64"
  have d2: "val div 4096 = q2"
    unfolding q2_def q1_def by (simp add: div_mult2_eq)
  have d3: "val div 262144 = q3"
    unfolding q3_def q2_def q1_def by (simp add: div_mult2_eq)
  have "q3 < 64"
    using assms unfolding q3_def q2_def q1_def
    by (simp add: div_mult2_eq less_mult_imp_div_less)
  then have m3: "q3 mod 64 = q3" by simp
  have e2: "q3 * 64 + q2 mod 64 = q2" unfolding q3_def by simp
  have e1: "q2 * 64 + q1 mod 64 = q1" unfolding q2_def by simp
  have e0: "q1 * 64 + val mod 64 = val" unfolding q1_def by simp
  show ?thesis unfolding d2 d3 m3 e2 using e1 e0 q1_def by simp
qed

lemma bytes3:
  fixes a b c :: nat
  assumes "a < 256" "b < 256" "c < 256"
  shows "(a * 65536 + b * 256 + c) div 65536 = a"
    and "(a * 65536 + b * 256 + c) div 256 mod 256 = b"
    and "(a * 65536 + b * 256 + c) mod 256 = c"
    and "a * 65536 + b * 256 + c < 16777216"
proof -
  define w where "w = a * 256 + b"
  have e: "a * 65536 + b * 256 + c = w * 256 + c" by (simp add: w_def)
  show "(a * 65536 + b * 256 + c) div 65536 = a" using assms by simp
  have "(w * 256 + c) mod 256 = c" using assms by simp
  then show "(a * 65536 + b * 256 + c) mod 256 = c" by (simp only: e)
  have "(w * 256 + c) div 256 = w" using assms by simp
  moreover have "w mod 256 = b" using assms by (simp add: w_def)
  ultimately show "(a * 65536 + b * 256 + c) div 256 mod 256 = b" by (simp only: e)
  show "a * 65536 + b * 256 + c < 16777216" using assms by simp
qed

lemma index_of_nth: "distinct xs \<Longrightarrow> i < length xs \<Longrightarrow> index_of (xs ! i) xs = Some i"
proof (induction xs arbitrary: i)
  case Nil
  then show ?case by simp
next
  case (Cons x xs)
  show ?case
  proof (cases i)
    case 0
    then show ?thesis by simp
  next
    case (Suc j)
    with Cons.prems have "xs ! j \<in> set xs" "x \<notin> set xs" "distinct xs" "j < length xs"
      by auto
    with Cons.IH[of j] Suc show ?thesis by auto
  qed
qed

lemma index_of_None: "x \<notin> set xs \<Longrightarrow> index_of x xs = None"
  by (induction xs) auto

lemma decodeMap_enc6: "decodeMap (enc6 v) = Some (v mod 64)"
proof -
  have "distinct encodeStd" "length encodeStd = 64"
    unfolding encodeStd_def by simp_all
  then show ?thesis
    unfolding decodeMap_def enc6_def by (simp add: index_of_nth)
qed

lemma decodeMap_padChar: "decodeMap padChar = None"
  unfolding decodeMap_def padChar_def
  by (rule index_of_None) (simp add: encodeStd_def)

lemma padChar_not_newline: "\<not> is_newline padChar"
  by (simp add: is_newline_def padChar_def)

lemma quantum4:
  "quantum [v0, v1, v2, v3] =
     (let val = ((v0 * 64 + v1) * 64 + v2) * 64 + v3
      in [char_of (val div 65536), char_of (val div 256), char_of val])"
  by (simp add: quantum_def Let_def)

lemma quantum_short:
  "quantum [v0, v1] = take 1 (quantum [v0, v1, 0, 0])"
  "quantum [v0, v1, v2] = take 2 (quantum [v0, v1, v2, 0])"
  by (simp_all add: quantum_def Let_def)

lemma char_of_byte: "n mod 256 = of_char c \<Longrightarrow> char_of (n::nat) = c"
  by (metis char_of_char char_of_mod_256)

lemma enc_quantum:
  fixes a b c :: char
  defines "val \<equiv> of_char a * 65536 + of_char b * 256 + (of_char c :: nat)"
  shows "quantum [val div 262144 mod 64, val div 4096 mod 64, val div 64 mod 64, val mod 64]
           = [a, b, c]"
proof -
  have lt: "of_char a < (256::nat)" "of_char b < (256::nat)" "of_char c < (256::nat)"
    by simp_all
  have v: "val < 16777216"
    unfolding val_def using bytes3(4)[OF lt] .
  have 1: "val div 65536 mod 256 = of_char a"
    unfolding val_def using bytes3(1)[OF lt] by simp
  have 2: "val div 256 mod 256 = of_char b"
    unfolding val_def using bytes3(2)[OF lt] .
  have 3: "val mod 256 = of_char c"
    unfolding val_def using bytes3(3)[OF lt] .
  show ?thesis
    unfolding quantum4 Let_def pack4[OF v]
    using 1 2 3 by (simp add: char_of_byte)
qed

lemma decode_from_enc6:
  "decode_from dbuf (enc6 v # cs) =
     (if length dbuf = 3
      then (let (bs, ok) = decode_from [] cs in (quantum (dbuf @ [v mod 64]) @ bs, ok))
      else decode_from (dbuf @ [v mod 64]) cs)"
  by (simp add: decodeMap_enc6)

lemma decode_quad:
  "decode_from [] (enc6 v0 # enc6 v1 # enc6 v2 # enc6 v3 # cs) =
     (quantum [v0 mod 64, v1 mod 64, v2 mod 64, v3 mod 64] @ fst (decode_from [] cs),
      snd (decode_from [] cs))"
  by (simp add: decode_from_enc6 split_def Let_def del: decode_from.simps)

lemma decode_pad1:
  "decode_from [] [enc6 v0, enc6 v1, enc6 v2, padChar] =
     (quantum [v0 mod 64, v1 mod 64, v2 mod 64], True)"
  by (simp add: decodeMap_enc6 decodeMap_padChar padChar_not_newline)

lemma decode_pad2:
  "decode_from [] [enc6 v0, enc6 v1, padChar, padChar] =
     (quantum [v0 mod 64, v1 mod 64], True)"
  by (simp add: decodeMap_enc6 decodeMap_padChar padChar_not_newline)

lemma DecodeString_EncodeToString: "DecodeString (EncodeToString s) = (s, True)"
  unfolding DecodeString_def
proof (induction s rule: EncodeToString.induct)
  case 1
  show ?case by (simp add: EncodeToString.simps)
next
  case (2 a)
  define val where "val = (of_char a :: nat) * 65536"
  have z: "val div 64 mod 64 = 0" "val mod 64 = 0"
    unfolding val_def by simp_all
  have "quantum [val div 262144 mod 64, val div 4096 mod 64, val div 64 mod 64, val mod 64]
          = [a, CHR 0x00, CHR 0x00]"
    using enc_quantum[of a "CHR 0x00" "CHR 0x00"] by (simp add: val_def)
  then have q: "quantum [val div 262144 mod 64, val div 4096 mod 64] = [a]"
    by (simp add: quantum_short z)
  have "EncodeToString [a] = [enc6 (val div 262144), enc6 (val div 4096), padChar, padChar]"
    by (simp add: EncodeToString.simps val_def Let_def)
  then show ?case by (simp only: decode_pad2 q)
next
  case (3 a b)
  define val where "val = (of_char a :: nat) * 65536 + of_char b * 256"
  have z: "val mod 64 = 0"
    unfolding val_def by simp
  have "quantum [val div 262144 mod 64, val div 4096 mod 64, val div 64 mod 64, val mod 64]
          = [a, b, CHR 0x00]"
    using enc_quantum[of a b "CHR 0x00"] by (simp add: val_def)
  then have q: "quantum [val div 262144 mod 64, val div 4096 mod 64, val div 64 mod 64] = [a, b]"
    by (simp add: quantum_short z)
  have "EncodeToString [a, b] =
          [enc6 (val div 262144), enc6 (val div 4096), enc6 (val div 64), padChar]"
    by (simp add: EncodeToString.simps val_def Let_def)
  then show ?case by (simp only: decode_pad1 q)
next
  case (4 a b c rest)
  define val where "val = (of_char a :: nat) * 65536 + of_char b * 256 + of_char c"
  have q: "quantum [val div 262144 mod 64, val div 4096 mod 64, val div 64 mod 64, val mod 64]
             = [a, b, c]"
    unfolding val_def by (rule enc_quantum)
  have "EncodeToString (a # b # c # rest) =
          enc6 (val div 262144) # enc6 (val div 4096) # enc6 (val div 64) # enc6 val
            # EncodeToString rest"
    by (simp add: EncodeToString.simps val_def Let_def)
  then show ?case using 4 by (simp only: decode_quad q) simp
qed

lemma DecodeString_Nil: "DecodeString [] = ([], True)"
  by (simp add: DecodeString_def)


section \<open>Transport and reader\<close>

lemma dial_calls: "calls (snd (dial srv p m f ps s)) = calls s @ [mk_request p m f ps]"
  by (simp add: dial_def Let_def split_def split: reply.splits)

lemma dial_sent:
  "sent (snd (dial srv p m f ps s)) =
     (if fst (srv (mk_request p m f ps) (remote s)) = Unbuilt then sent s
      else sent s @ [mk_request p m f ps])"
  by (simp add: dial_def Let_def split_def split: reply.splits)


lemma dial_result:
  "fst (dial srv p m f ps s) =
     (case fst (srv (mk_request p m f ps) (remote s)) of
        Unbuilt \<Rightarrow> Inl RequestNotBuilt
      | Failed \<Rightarrow> Inl RequestFailed
      | Garbled \<Rightarrow> Inl EnvelopeDecodeFailed
      | Envelope status dat \<Rightarrow> if status \<noteq> 1 then Inl APICallFailed else Inr dat)"
  by (simp add: dial_def Let_def split_def split: reply.splits)

lemma dial_succeeds_sent:
  "fst (dial srv p m f ps s) = Inr dat \<Longrightarrow> fst (srv (mk_request p m f ps) (remote s)) \<noteq> Unbuilt"
  by (auto simp add: dial_result)

lemma dial_succeeds_accepted:
  "fst (dial srv p m f ps s) = Inr dat \<Longrightarrow> accepted (fst (srv (mk_request p m f ps) (remote s)))"
  by (simp add: dial_result accepted_def split: reply.splits if_splits)


lemma GetRecords_world:
  "snd (GetRecords srv p zone s) = snd (dial srv p ''DNS'' ''parse_zone'' [(''zone'', Text zone)] s)"
  by (simp add: GetRecords_def split: prod.splits sum.splits payload.splits)

lemma GetRecords_result:
  "fst (GetRecords srv p zone s) =
     (case fst (dial srv p ''DNS'' ''parse_zone'' [(''zone'', Text zone)] s) of
        Inl err \<Rightarrow> Inl err
      | Inr Unparsable \<Rightarrow> Inl EntriesDecodeFailed
      | Inr (Entries es) \<Rightarrow> Inr (map (entry_record zone) es))"
  by (simp add: GetRecords_def split: prod.splits sum.splits payload.splits)

text \<open>
  C9. A reply whose envelope decodes and whose status is not 1 makes \<^verbatim>\<open>dial\<close> fail with
  the error "API call failed" and no payload, whatever the call; so a \<^verbatim>\<open>parse_zone\<close>
  reply of that kind makes \<^verbatim>\<open>GetRecords\<close> return that error and no records.
\<close>

theorem status_not_1_fails:
  assumes "status \<noteq> 1"
  shows "(fst (srv (mk_request p m f ps) (remote s)) = Envelope status dat
            \<longrightarrow> fst (dial srv p m f ps s) = Inl APICallFailed)
       \<and> (fst (srv (mk_request p ''DNS'' ''parse_zone'' [(''zone'', Text zone)]) (remote s))
              = Envelope status dat
            \<longrightarrow> fst (GetRecords srv p zone s) = Inl APICallFailed)"
  using assms by (simp add: GetRecords_result dial_result)

theorem status_not_1_fails_witness:
  "fst (dial (\<lambda>q w. (Envelope 0 (Entries example_entries), w)) example_provider
          ''DNS'' ''parse_zone'' [(''zone'', Text example_zone)] (example_world 1))
     = Inl APICallFailed
   \<and> fst (GetRecords (\<lambda>q w. (Envelope 0 (Entries example_entries), w)) example_provider
            example_zone (example_world 1))
     = Inl APICallFailed"
proof -
  have h: "(0::int) \<noteq> 1" by simp
  show ?thesis
    using status_not_1_fails [OF h,
      of "\<lambda>q w. (Envelope 0 (Entries example_entries), w)" example_provider
         "''DNS''" "''parse_zone''" "[(''zone'', Text example_zone)]" "example_world 1"
         "Entries example_entries" example_zone]
    by simp
qed

text \<open>
  C2, as amended. When the payload of an accepted \<^verbatim>\<open>parse_zone\<close> reply does not decode
  as a list of zone-line entries, \<^verbatim>\<open>GetRecords\<close> returns the decoding error and no
  records. When it does decode, \<^verbatim>\<open>GetRecords\<close> succeeds with exactly one record per
  entry, whether or not the base64 of the entries is well formed: the errors of the
  base64 decoder are dropped.
\<close>

theorem GetRecords_decode:
  "(fst (srv (mk_request p ''DNS'' ''parse_zone'' [(''zone'', Text zone)]) (remote s))
        = Envelope 1 Unparsable
      \<longrightarrow> fst (GetRecords srv p zone s) = Inl EntriesDecodeFailed)
   \<and> (fst (srv (mk_request p ''DNS'' ''parse_zone'' [(''zone'', Text zone)]) (remote s))
        = Envelope 1 (Entries es)
      \<longrightarrow> fst (GetRecords srv p zone s) = Inr (map (entry_record zone) es)
          \<and> length (map (entry_record zone) es) = length es)"
  by (simp add: GetRecords_result dial_result)

theorem GetRecords_decode_witness:
  "fst (GetRecords (\<lambda>q w. (Envelope 1 Unparsable, w)) example_provider example_zone
          (example_world 1))
     = Inl EntriesDecodeFailed
   \<and> fst (GetRecords (\<lambda>q w. (Envelope 1 (Entries corrupt_entries), w)) example_provider
            example_zone (example_world 1))
     = Inr (map (entry_record example_zone) corrupt_entries)"
  using GetRecords_decode [of "\<lambda>q w. (Envelope 1 Unparsable, w)" example_provider
          example_zone "example_world 1" "[]"]
        GetRecords_decode [of "\<lambda>q w. (Envelope 1 (Entries corrupt_entries), w)"
          example_provider example_zone "example_world 1" corrupt_entries]
  by simp

text \<open>
  C2 as stated fails: the name and the value fragment of the line below are malformed
  base64 (the decoder reports both), and \<^verbatim>\<open>GetRecords\<close> returns a record for the line,
  made of the bytes decoded before each fault, and no error.
\<close>

theorem GetRecords_bad_base64_counterexample:
  "\<not> snd (DecodeString ''d3d3!'') \<and> \<not> snd (DecodeString ''MS4yLjMuNA'')
   \<and> fst (GetRecords echo_remote example_provider example_zone (zone_world corrupt_entries 1))
       = Inr [\<lparr>Type = ''A'', Name = ''www'', Value = ''1.2.3.'', TTL = 300,
               Metadata = [''line_index'' \<mapsto> ''7'']\<rparr>]"
  by (simp add: GetRecords_result dial_result mk_request_def echo_remote_def zone_world_def
      corrupt_entries_def entry_record_def DecodeString_def decodeMap_def encodeStd_def
      is_newline_def padChar_def quantum_def char_of_def bit_Suc_0_iff TrimSuffix_def HasSuffix_def Join_def
      Itoa_def decimal.simps digit_char_def example_zone_def)


section \<open>Names and values\<close>

lemma HasSuffix_iff: "HasSuffix s suf \<longleftrightarrow> (\<exists>m. s = m @ suf)"
proof
  assume "HasSuffix s suf"
  then have "s = take (length s - length suf) s @ suf"
    unfolding HasSuffix_def by (metis append_take_drop_id)
  then show "\<exists>m. s = m @ suf" ..
next
  assume "\<exists>m. s = m @ suf"
  then show "HasSuffix s suf"
    unfolding HasSuffix_def by auto
qed

lemma TrimSuffix_append: "TrimSuffix (m @ suf) suf = m"
  by (simp add: TrimSuffix_def HasSuffix_def)

lemma TrimSuffix_other: "\<nexists>m. s = m @ suf \<Longrightarrow> TrimSuffix s suf = s"
  by (simp add: TrimSuffix_def HasSuffix_iff)

lemma foldl_join_concat: "foldl (\<lambda>b s. b @ sep @ s) x es = x @ concat (map (\<lambda>s. sep @ s) es)"
proof (induction es arbitrary: x)
  case Nil
  show ?case by simp
next
  case (Cons e es)
  have "foldl (\<lambda>b s. b @ sep @ s) (x @ sep @ e) es = x @ sep @ e @ concat (map (\<lambda>s. sep @ s) es)"
    using Cons.IH[of "x @ sep @ e"] by simp
  then show ?case by simp
qed

lemma Join_concat:
  "Join elems sep = (case elems of [] \<Rightarrow> [] | x # xs \<Rightarrow> x @ concat (map (\<lambda>s. sep @ s) xs))"
  by (simp add: Join_def foldl_join_concat split: list.splits)

lemma Join_single: "Join [x] sep = x"
  by (simp add: Join_def)

lemma add_list_step:
  "foldl (\<lambda>add r. add @ [f r]) acc rs = acc @ map f rs"
  by (induction rs arbitrary: acc) simp_all

lemma add_list_map:
  "add_list zone rs =
     map (\<lambda>r. \<lparr>record_type = Type r, dname = Name r @ ''.'' @ zone, ttl = TTL r,
                data = [Value r]\<rparr>) rs"
  unfolding add_list_def by (simp add: add_list_step)

lemma ttl_there_and_back: "ucast (ucast (t :: 32 word) :: 64 word) = t"
  by (simp add: ucast_up_ucast_id is_up)

text \<open>
  C7. For every zone line, the name of the record is the decoded name without one
  trailing copy of the suffix made of a dot and the zone: a decoded name that ends in the
  suffix loses exactly that copy (so a doubled suffix keeps one), and any other decoded
  name is left as it is. The value is the decoded fragments in order, with exactly one
  space between two consecutive fragments.
\<close>

theorem entry_record_name_value:
  "(\<forall>m. fst (DecodeString (DNameB64 e)) = m @ ''.'' @ zone
          \<longrightarrow> Name (entry_record zone e) = m)
   \<and> (\<forall>m. fst (DecodeString (DNameB64 e)) = m @ ''.'' @ zone @ ''.'' @ zone
          \<longrightarrow> Name (entry_record zone e) = m @ ''.'' @ zone)
   \<and> ((\<nexists>m. fst (DecodeString (DNameB64 e)) = m @ ''.'' @ zone)
          \<longrightarrow> Name (entry_record zone e) = fst (DecodeString (DNameB64 e)))
   \<and> Value (entry_record zone e) =
       (case map (\<lambda>d. fst (DecodeString d)) (DataB64 e) of
          [] \<Rightarrow> []
        | x # xs \<Rightarrow> x @ concat (map (\<lambda>y. '' '' @ y) xs))"
proof (intro conjI allI impI)
  fix m
  assume "fst (DecodeString (DNameB64 e)) = m @ ''.'' @ zone"
  then show "Name (entry_record zone e) = m"
    using TrimSuffix_append[of m "''.'' @ zone"] by (simp add: entry_record_def)
next
  fix m
  assume "fst (DecodeString (DNameB64 e)) = m @ ''.'' @ zone @ ''.'' @ zone"
  then show "Name (entry_record zone e) = m @ ''.'' @ zone"
    using TrimSuffix_append[of "m @ ''.'' @ zone" "''.'' @ zone"] by (simp add: entry_record_def)
next
  assume "\<nexists>m. fst (DecodeString (DNameB64 e)) = m @ ''.'' @ zone"
  then show "Name (entry_record zone e) = fst (DecodeString (DNameB64 e))"
    using TrimSuffix_other[of "fst (DecodeString (DNameB64 e))" "''.'' @ zone"]
    by (simp add: entry_record_def)
next
  show "Value (entry_record zone e) =
       (case map (\<lambda>d. fst (DecodeString d)) (DataB64 e) of
          [] \<Rightarrow> []
        | x # xs \<Rightarrow> x @ concat (map (\<lambda>y. '' '' @ y) xs))"
    by (simp add: entry_record_def Join_concat)
qed

theorem entry_record_name_value_witness:
  "Name (entry_record example_zone doubled_entry) = ''a.example.com.''
   \<and> Value (entry_record example_zone doubled_entry) = ''first second''
   \<and> Name (entry_record ''example.org.'' doubled_entry) = ''a.example.com..example.com.''"
proof -
  have d: "fst (DecodeString (DNameB64 doubled_entry)) = ''a.example.com..example.com.''"
    by (simp add: doubled_entry_def DecodeString_EncodeToString DecodeString_Nil)
  have p: "map (\<lambda>d. fst (DecodeString d)) (DataB64 doubled_entry) = [''first'', ''second'']"
    by (simp add: doubled_entry_def DecodeString_EncodeToString DecodeString_Nil)
  have n: "\<nexists>m. ''a.example.com..example.com.'' = m @ ''.'' @ ''example.org.''"
    using HasSuffix_iff[of "''a.example.com..example.com.''" "''.example.org.''"]
    by (simp add: HasSuffix_def)
  have 1: "Name (entry_record example_zone doubled_entry) = ''a.example.com.''"
    using entry_record_name_value[of doubled_entry example_zone] d
    by (simp add: example_zone_def)
  have 2: "Value (entry_record example_zone doubled_entry) = ''first second''"
    using entry_record_name_value[of doubled_entry example_zone] p by simp
  have 3: "Name (entry_record ''example.org.'' doubled_entry) = ''a.example.com..example.com.''"
    using entry_record_name_value[of doubled_entry "''example.org.''"] d n by simp
  from 1 2 3 show ?thesis by simp
qed

text \<open>
  C3. A record put through the add list of \<^verbatim>\<open>AppendRecords\<close>, stored by a remote that
  echoes it (name and single data element base64-encoded, type and time-to-live as
  given, on whatever line) and read back by the projection of \<^verbatim>\<open>GetRecords\<close> has the
  type, name, value and time-to-live it started with. This holds for every record, the
  empty name and names that contain the zone suffix included.
\<close>

theorem add_list_read_back:
  "map (\<lambda>a. core (entry_record zone (stored (line a) a))) (add_list zone rs) = map core rs"
proof -
  have "core (entry_record zone (stored i
          \<lparr>record_type = Type r, dname = Name r @ ''.'' @ zone, ttl = TTL r,
           data = [Value r]\<rparr>)) = core r" for i r
    using TrimSuffix_append[of "Name r" "''.'' @ zone"]
    by (simp add: core_def entry_record_def stored_def DecodeString_EncodeToString DecodeString_Nil
        Join_single ttl_there_and_back)
  then show ?thesis
    by (simp add: add_list_map comp_def)
qed

theorem add_list_read_back_witness:
  "map core
     (case fst (GetRecords echo_remote example_provider example_zone
                  (snd (AppendRecords echo_remote example_provider example_zone
                          [record_blog] (example_world 3)))) of
        Inl err \<Rightarrow> []
      | Inr rs \<Rightarrow> rs)
   = [(''A'', ''www'', ''1.2.3.4'', 300), (''SOA'', [], ''ns1 admin 42 ...'', 86400),
      core record_blog]"
  using add_list_read_back[of example_zone "\<lambda>a. 2" "[record_blog]"]
  by (simp add: GetRecords_def AppendRecords_def dial_def mk_request_def echo_remote_def
      additions_of_def removal_of_def example_world_def zone_world_def example_entries_def
      add_list_map stored_def enumerate_eq_zip entry_record_def DecodeString_EncodeToString DecodeString_Nil
      TrimSuffix_def HasSuffix_def Join_def core_def record_blog_def example_zone_def
      ttl_there_and_back Let_def)


section \<open>The writers\<close>

lemma GetRecords_calls:
  "calls (snd (GetRecords srv p zone s)) =
     calls s @ [mk_request p ''DNS'' ''parse_zone'' [(''zone'', Text zone)]]"
  by (simp add: GetRecords_world dial_calls)


lemma GetRecords_sent:
  "sent (snd (GetRecords srv p zone s)) =
     (if fst (srv (mk_request p ''DNS'' ''parse_zone'' [(''zone'', Text zone)]) (remote s)) = Unbuilt
      then sent s
      else sent s @ [mk_request p ''DNS'' ''parse_zone'' [(''zone'', Text zone)]])"
  by (simp add: GetRecords_world dial_sent)

lemma AppendRecords_read_fails:
  "GetRecords srv p zone s = (Inl e, s1) \<Longrightarrow> AppendRecords srv p zone rs s = (Inl e, s1)"
  by (simp add: AppendRecords_def)

lemma AppendRecords_after_read:
  assumes "GetRecords srv p zone s = (Inr existing, s1)"
  shows "AppendRecords srv p zone rs s =
     (let d = dial srv p ''DNS'' ''mass_edit_zone''
                [(''zone'', Text zone), (''serial'', Text (current_serial ''0'' existing)),
                 (''add'', AddList (add_list zone rs))] s1
      in (case fst d of Inl err \<Rightarrow> Inl err | Inr x \<Rightarrow> Inr rs, snd d))"
  using assms by (simp add: AppendRecords_def Let_def split: prod.splits sum.splits)

lemma DeleteRecords_read_fails:
  "GetRecords srv p zone s = (Inl e, s1) \<Longrightarrow> DeleteRecords srv p zone rs s = (Inl e, s1)"
  by (simp add: DeleteRecords_def)

lemma DeleteRecords_after_read:
  assumes "GetRecords srv p zone s = (Inr existing, s1)"
  shows "DeleteRecords srv p zone rs s =
     (let d = dial srv p ''DNS'' ''mass_edit_zone''
                [(''zone'', Text zone),
                 (''serial'', Text (fst (scan_records rs existing (''0'', [])))),
                 (''remove'', RemoveList (snd (scan_records rs existing (''0'', []))))] s1
      in (case fst d of Inl err \<Rightarrow> Inl err | Inr x \<Rightarrow> Inr rs, snd d))"
  using assms by (simp add: DeleteRecords_def Let_def split: prod.splits sum.splits)

subsection \<open>The loops of DeleteRecords in closed form\<close>

lemma scan_existing_closed:
  "scan_existing r exs (serial, toRemove) =
     (foldl (\<lambda>ser ex. if Type ex = ''SOA'' then third_field ser (Value ex) else ser) serial
        (filter (matches r) exs),
      toRemove @ map (\<lambda>ex. meta ex ''line_index'') (filter (matches r) exs))"
  by (induction exs arbitrary: serial toRemove) simp_all

lemma scan_records_closed:
  "scan_records rs existing (serial, toRemove) =
     (foldl (\<lambda>ser ex. if Type ex = ''SOA'' then third_field ser (Value ex) else ser) serial
        (deletion_targets rs existing),
      toRemove @ map (\<lambda>ex. meta ex ''line_index'') (deletion_targets rs existing))"
proof (induction rs arbitrary: serial toRemove)
  case Nil
  show ?case by (simp add: deletion_targets_def)
next
  case (Cons r rs)
  show ?case
    by (simp add: scan_existing_closed Cons.IH deletion_targets_def)
qed

lemma captured_unchanged:
  "\<forall>ex\<in>set xs. Type ex \<noteq> ''SOA'' \<Longrightarrow>
   foldl (\<lambda>ser ex. if Type ex = ''SOA'' then third_field ser (Value ex) else ser) serial xs = serial"
  by (induction xs arbitrary: serial) simp_all

lemma captured_origin:
  "foldl (\<lambda>ser ex. if Type ex = ''SOA'' then third_field ser (Value ex) else ser) serial xs = serial
   \<or> (\<exists>ex\<in>set xs. Type ex = ''SOA'' \<and> 3 \<le> length (Fields (Value ex))
        \<and> foldl (\<lambda>ser ex. if Type ex = ''SOA'' then third_field ser (Value ex) else ser) serial xs
            = Fields (Value ex) ! 2)"
proof (induction xs rule: rev_induct)
  case Nil
  show ?case by simp
next
  case (snoc x xs)
  show ?case
  proof (cases "Type x = ''SOA'' \<and> 3 \<le> length (Fields (Value x))")
    case True
    then show ?thesis by (simp add: third_field_def Let_def)
  next
    case False
    then have "foldl (\<lambda>ser ex. if Type ex = ''SOA'' then third_field ser (Value ex) else ser)
                 serial (xs @ [x])
               = foldl (\<lambda>ser ex. if Type ex = ''SOA'' then third_field ser (Value ex) else ser)
                   serial xs"
      by (auto simp add: third_field_def Let_def)
    with snoc.IH show ?thesis by auto
  qed
qed

lemma deletion_targets_iff:
  "ex \<in> set (deletion_targets rs existing) \<longleftrightarrow> ex \<in> set existing \<and> (\<exists>r\<in>set rs. matches r ex)"
  by (auto simp add: deletion_targets_def)

lemma deletion_targets_none:
  "\<forall>r\<in>set rs. \<forall>ex\<in>set existing. \<not> matches r ex \<Longrightarrow> deletion_targets rs existing = []"
  by (induction rs) (simp_all add: deletion_targets_def filter_empty_conv)

lemma current_serial_first_SOA:
  "current_serial serial rs =
     (case filter (\<lambda>r. Type r = ''SOA'') rs of
        [] \<Rightarrow> serial
      | soa # others \<Rightarrow> third_field serial (Value soa))"
  by (induction rs) simp_all


text \<open>
  The serial \<^verbatim>\<open>AppendRecords\<close> sends is the third field of the first SOA record read,
  when that record's value has three fields.
\<close>

lemma AppendRecords_serial_of_SOA:
  assumes "GetRecords srv p zone s = (Inr existing, s1)"
    and "filter (\<lambda>r. Type r = ''SOA'') existing = soa # others"
    and "3 \<le> length (Fields (Value soa))"
  shows "serials (calls (snd (AppendRecords srv p zone rs s)))
           = serials (calls s1) @ [Some (Text (Fields (Value soa) ! 2))]"
proof -
  have "current_serial ''0'' existing = Fields (Value soa) ! 2"
    using assms(2,3) by (simp add: current_serial_first_SOA third_field_def Let_def)
  then show ?thesis
    by (simp add: AppendRecords_after_read[OF assms(1)] Let_def dial_calls serials_def
        mk_request_def)
qed

subsection \<open>Running the operations on the example zone\<close>

lemma echo_GetRecords:
  "GetRecords echo_remote p zone (zone_world es (Suc n)) =
     (Inr (map (entry_record zone) es),
      \<lparr>remote = \<lparr>entries = es, budget = n\<rparr>,
       calls = [mk_request p ''DNS'' ''parse_zone'' [(''zone'', Text zone)]],
        sent = [mk_request p ''DNS'' ''parse_zone'' [(''zone'', Text zone)]]\<rparr>)"
  by (simp add: GetRecords_def dial_def Let_def echo_remote_def mk_request_def zone_world_def)

lemma example_records:
  "map (entry_record example_zone) example_entries =
     [\<lparr>Type = ''A'', Name = ''www'', Value = ''1.2.3.4'', TTL = 300,
       Metadata = [''line_index'' \<mapsto> ''0'']\<rparr>,
      \<lparr>Type = ''SOA'', Name = [], Value = ''ns1 admin 42 ...'', TTL = 86400,
       Metadata = [''line_index'' \<mapsto> ''1'']\<rparr>]"
  by (simp add: example_entries_def entry_record_def example_zone_def
      DecodeString_EncodeToString DecodeString_Nil TrimSuffix_def HasSuffix_def Join_def
      Itoa_def decimal.simps digit_char_def)

lemma example_fields: "Fields ''ns1 admin 42 ...'' = [''ns1'', ''admin'', ''42'', ''...'']"
  by (simp add: Fields_def space_width_def flush_def)

text \<open>
  C5. After a successful read, \<^verbatim>\<open>AppendRecords\<close> issues exactly one further request, to
  \<^verbatim>\<open>mass_edit_zone\<close>, whose \<^verbatim>\<open>add\<close> list has, for each input record in order, the
  entry with the record's type, the name followed by a dot and the zone, the
  time-to-live, and a data list holding the value alone; the serial sent with it is the
  one found by the scan of the records read. In the zone \<^verbatim>\<open>example.com.\<close> whose SOA
  value is \<^verbatim>\<open>ns1 admin 42 ...\<close>, appending the CNAME record \<^verbatim>\<open>blog\<close> issues one
  mass-edit call with serial 42 and the single entry \<^verbatim>\<open>blog.example.com.\<close> (the
  witness).
\<close>

theorem AppendRecords_request:
  assumes "GetRecords srv p zone s = (Inr existing, s1)"
  shows "calls (snd (AppendRecords srv p zone rs s)) =
           calls s1 @
           [mk_request p ''DNS'' ''mass_edit_zone''
              [(''zone'', Text zone),
               (''serial'', Text (current_serial ''0'' existing)),
               (''add'', AddList (map (\<lambda>r. \<lparr>record_type = Type r, dname = Name r @ ''.'' @ zone,
                                              ttl = TTL r, data = [Value r]\<rparr>) rs))]]"
  by (simp add: AppendRecords_after_read[OF assms] Let_def dial_calls add_list_map)

theorem AppendRecords_request_witness:
  "map (\<lambda>q. (rfunction q, map_of (params q) ''serial'',
             map (\<lambda>a. (record_type a, dname a, ttl a, data a)) (additions_of q)))
     (calls (snd (AppendRecords echo_remote example_provider example_zone [record_blog]
                    (example_world 2))))
   = [(''parse_zone'', None, []),
      (''mass_edit_zone'', Some (Text ''42''),
       [(''CNAME'', ''blog.example.com.'', 300, [''www.example.com.''])])]"
proof -
  let ?s = "example_world 2"
  have g: "GetRecords echo_remote example_provider example_zone ?s =
      (Inr (map (entry_record example_zone) example_entries),
       \<lparr>remote = \<lparr>entries = example_entries, budget = 1\<rparr>,
        calls = [mk_request example_provider ''DNS'' ''parse_zone''
                   [(''zone'', Text example_zone)]],
        sent = [mk_request example_provider ''DNS'' ''parse_zone''
                   [(''zone'', Text example_zone)]]\<rparr>)"
    using echo_GetRecords[of example_provider example_zone example_entries 1]
    by (simp add: example_world_def numeral_2_eq_2)
  have ser: "current_serial ''0'' (map (entry_record example_zone) example_entries) = ''42''"
    by (simp add: example_records third_field_def example_fields)
  have c: "calls (snd (AppendRecords echo_remote example_provider example_zone [record_blog] ?s))
      = [mk_request example_provider ''DNS'' ''parse_zone'' [(''zone'', Text example_zone)],
         mk_request example_provider ''DNS'' ''mass_edit_zone''
           [(''zone'', Text example_zone), (''serial'', Text ''42''),
            (''add'', AddList [\<lparr>record_type = Type record_blog,
                                  dname = Name record_blog @ ''.'' @ example_zone,
                                  ttl = TTL record_blog, data = [Value record_blog]\<rparr>])]]"
    using AppendRecords_request[OF g, of "[record_blog]"]
    by (simp add: ser)
  show ?thesis
    unfolding c
    by (simp add: mk_request_def additions_of_def record_blog_def example_zone_def)
qed


lemma duplicate_records:
  "map (entry_record example_zone) duplicate_entries =
     [\<lparr>Type = ''A'', Name = ''www'', Value = ''1.2.3.4'', TTL = 300,
       Metadata = [''line_index'' \<mapsto> ''0'']\<rparr>,
      \<lparr>Type = ''SOA'', Name = [], Value = ''ns1 admin 42 ...'', TTL = 86400,
       Metadata = [''line_index'' \<mapsto> ''1'']\<rparr>,
      \<lparr>Type = ''A'', Name = ''www'', Value = ''1.2.3.4'', TTL = 300,
       Metadata = [''line_index'' \<mapsto> ''2'']\<rparr>]"
  by (simp add: duplicate_entries_def example_records)
     (simp add: entry_record_def example_zone_def DecodeString_EncodeToString TrimSuffix_def
        HasSuffix_def Join_def Itoa_def decimal.simps digit_char_def)

text \<open>
  C6. After a successful read, \<^verbatim>\<open>DeleteRecords\<close> issues exactly one further request, to
  \<^verbatim>\<open>mass_edit_zone\<close>, whose removal list is the line indices of the deletion targets:
  for each input record in turn, every existing record equal to it in type, name and
  value. So an existing record is queued exactly when some input record matches it, an
  input record that matches several lines queues all of them, and one that matches none
  adds nothing. When nothing matches, the request is still issued, with the empty list,
  and the operation succeeds whenever that request is accepted.
\<close>

theorem DeleteRecords_removal_list:
  assumes "GetRecords srv p zone s = (Inr existing, s1)"
  shows "let req = mk_request p ''DNS'' ''mass_edit_zone''
                     [(''zone'', Text zone),
                      (''serial'', Text (fst (scan_records rs existing (''0'', [])))),
                      (''remove'', RemoveList (map (\<lambda>ex. meta ex ''line_index'')
                                                 (deletion_targets rs existing)))]
         in calls (snd (DeleteRecords srv p zone rs s)) = calls s1 @ [req]
          \<and> (\<forall>ex. ex \<in> set (deletion_targets rs existing)
                     \<longleftrightarrow> ex \<in> set existing \<and> (\<exists>r\<in>set rs. matches r ex))
          \<and> (\<forall>r. deletion_targets [r] existing = filter (matches r) existing)
          \<and> ((\<forall>r\<in>set rs. \<forall>ex\<in>set existing. \<not> matches r ex)
                \<longrightarrow> deletion_targets rs existing = [])
          \<and> (accepted (fst (srv req (remote s1)))
                \<longrightarrow> fst (DeleteRecords srv p zone rs s) = Inr rs)"
proof -
  have snd_scan: "snd (scan_records rs existing (''0'', []))
      = map (\<lambda>ex. meta ex ''line_index'') (deletion_targets rs existing)"
    by (simp add: scan_records_closed)
  have 1: "calls (snd (DeleteRecords srv p zone rs s)) =
      calls s1 @ [mk_request p ''DNS'' ''mass_edit_zone''
                     [(''zone'', Text zone),
                      (''serial'', Text (fst (scan_records rs existing (''0'', [])))),
                      (''remove'', RemoveList (map (\<lambda>ex. meta ex ''line_index'')
                                                 (deletion_targets rs existing)))]]"
    by (simp add: DeleteRecords_after_read[OF assms] Let_def dial_calls snd_scan)
  have 2: "fst (DeleteRecords srv p zone rs s) = Inr rs"
    if "accepted (fst (srv (mk_request p ''DNS'' ''mass_edit_zone''
                     [(''zone'', Text zone),
                      (''serial'', Text (fst (scan_records rs existing (''0'', [])))),
                      (''remove'', RemoveList (map (\<lambda>ex. meta ex ''line_index'')
                                                 (deletion_targets rs existing)))])
                  (remote s1)))"
    using that
    by (simp add: DeleteRecords_after_read[OF assms] Let_def dial_result snd_scan accepted_def
        split: reply.splits)
  have 3: "deletion_targets [r] existing = filter (matches r) existing" for r
    by (simp add: deletion_targets_def)
  show ?thesis
    unfolding Let_def
    using 1 2 3 deletion_targets_iff[of _ rs existing] deletion_targets_none[of rs existing]
    by blast
qed

theorem DeleteRecords_removal_list_witness:
  "map removal_of
     (calls (snd (DeleteRecords echo_remote example_provider example_zone
                    [record_blog, record_www] (zone_world duplicate_entries 2))))
     = [[], [''0'', ''2'']]
   \<and> map (\<lambda>q. (rfunction q, removal_of q))
       (calls (snd (DeleteRecords echo_remote example_provider example_zone [record_blog]
                      (example_world 2))))
     = [(''parse_zone'', []), (''mass_edit_zone'', [])]
   \<and> fst (DeleteRecords echo_remote example_provider example_zone [record_blog]
            (example_world 2))
     = Inr [record_blog]"
proof -
  have g1: "GetRecords echo_remote example_provider example_zone (zone_world duplicate_entries 2) =
      (Inr (map (entry_record example_zone) duplicate_entries),
       \<lparr>remote = \<lparr>entries = duplicate_entries, budget = 1\<rparr>,
        calls = [mk_request example_provider ''DNS'' ''parse_zone''
                   [(''zone'', Text example_zone)]],
        sent = [mk_request example_provider ''DNS'' ''parse_zone''
                   [(''zone'', Text example_zone)]]\<rparr>)"
    using echo_GetRecords[of example_provider example_zone duplicate_entries 1]
    by (simp add: numeral_2_eq_2)
  have g2: "GetRecords echo_remote example_provider example_zone (example_world 2) =
      (Inr (map (entry_record example_zone) example_entries),
       \<lparr>remote = \<lparr>entries = example_entries, budget = 1\<rparr>,
        calls = [mk_request example_provider ''DNS'' ''parse_zone''
                   [(''zone'', Text example_zone)]],
        sent = [mk_request example_provider ''DNS'' ''parse_zone''
                   [(''zone'', Text example_zone)]]\<rparr>)"
    using echo_GetRecords[of example_provider example_zone example_entries 1]
    by (simp add: example_world_def numeral_2_eq_2)
  have t1: "map (\<lambda>ex. meta ex ''line_index'')
              (deletion_targets [record_blog, record_www]
                 (map (entry_record example_zone) duplicate_entries)) = [''0'', ''2'']"
    by (simp add: duplicate_records deletion_targets_def matches_def record_blog_def
        record_www_def meta_def)
  have t2: "deletion_targets [record_blog] (map (entry_record example_zone) example_entries) = []"
    by (simp add: example_records deletion_targets_def matches_def record_blog_def)
  note w1 = DeleteRecords_removal_list[OF g1, of "[record_blog, record_www]", unfolded Let_def t1]
  note w2 = DeleteRecords_removal_list[OF g2, of "[record_blog]", unfolded Let_def t2]
  have a: "map removal_of
     (calls (snd (DeleteRecords echo_remote example_provider example_zone
                    [record_blog, record_www] (zone_world duplicate_entries 2))))
     = [[], [''0'', ''2'']]"
    using w1 by (simp add: removal_of_def mk_request_def)
  have b: "map (\<lambda>q. (rfunction q, removal_of q))
       (calls (snd (DeleteRecords echo_remote example_provider example_zone [record_blog]
                      (example_world 2))))
     = [(''parse_zone'', []), (''mass_edit_zone'', [])]"
    using w2 by (simp add: removal_of_def mk_request_def)
  have c: "fst (DeleteRecords echo_remote example_provider example_zone [record_blog]
            (example_world 2)) = Inr [record_blog]"
    using w2 by (simp add: accepted_def echo_remote_def mk_request_def)
  from a b c show ?thesis by simp
qed


text \<open>
  C8. After a successful read, the serial \<^verbatim>\<open>DeleteRecords\<close> sends with its
  \<^verbatim>\<open>mass_edit_zone\<close> request is \<^verbatim>\<open>0\<close> whenever no record of type SOA is among the
  deletion targets, whatever else the zone contains; and when the serial sent is not
  \<^verbatim>\<open>0\<close>, it is the third field of the value of an SOA record that is among the
  deletion targets.
\<close>

theorem DeleteRecords_serial:
  assumes "GetRecords srv p zone s = (Inr existing, s1)"
  shows "let ser = fst (scan_records rs existing (''0'', []))
         in serials (calls (snd (DeleteRecords srv p zone rs s)))
              = serials (calls s1) @ [Some (Text ser)]
          \<and> ((\<forall>ex\<in>set (deletion_targets rs existing). Type ex \<noteq> ''SOA'') \<longrightarrow> ser = ''0'')
          \<and> (ser \<noteq> ''0'' \<longrightarrow>
                (\<exists>ex\<in>set (deletion_targets rs existing).
                    Type ex = ''SOA'' \<and> 3 \<le> length (Fields (Value ex))
                    \<and> ser = Fields (Value ex) ! 2))"
proof -
  let ?ser = "fst (scan_records rs existing (''0'', []))"
  have 1: "serials (calls (snd (DeleteRecords srv p zone rs s)))
             = serials (calls s1) @ [Some (Text ?ser)]"
    by (simp add: DeleteRecords_after_read[OF assms] Let_def dial_calls serials_def
        mk_request_def)
  have 2: "?ser = ''0''" if "\<forall>ex\<in>set (deletion_targets rs existing). Type ex \<noteq> ''SOA''"
    using captured_unchanged[OF that, of "''0''"] by (simp add: scan_records_closed)
  have 3: "\<exists>ex\<in>set (deletion_targets rs existing).
             Type ex = ''SOA'' \<and> 3 \<le> length (Fields (Value ex)) \<and> ?ser = Fields (Value ex) ! 2"
    if "?ser \<noteq> ''0''"
    using captured_origin[of "''0''" "deletion_targets rs existing"] that
    by (simp add: scan_records_closed)
  show ?thesis
    unfolding Let_def using 1 2 3 by blast
qed

theorem DeleteRecords_serial_witness:
  "serials (calls (snd (DeleteRecords echo_remote example_provider example_zone [record_www]
                          (example_world 2))))
     = [None, Some (Text ''0'')]
   \<and> map Type (deletion_targets [record_www]
                 (map (entry_record example_zone) example_entries)) = [''A'']
   \<and> serials (calls (snd (DeleteRecords echo_remote example_provider example_zone [record_soa]
                            (example_world 2))))
     = [None, Some (Text ''42'')]
   \<and> map Type (deletion_targets [record_soa]
                 (map (entry_record example_zone) example_entries)) = [''SOA'']"
proof -
  have g: "GetRecords echo_remote example_provider example_zone (example_world 2) =
      (Inr (map (entry_record example_zone) example_entries),
       \<lparr>remote = \<lparr>entries = example_entries, budget = 1\<rparr>,
        calls = [mk_request example_provider ''DNS'' ''parse_zone''
                   [(''zone'', Text example_zone)]],
        sent = [mk_request example_provider ''DNS'' ''parse_zone''
                   [(''zone'', Text example_zone)]]\<rparr>)"
    using echo_GetRecords[of example_provider example_zone example_entries 1]
    by (simp add: example_world_def numeral_2_eq_2)
  have t: "deletion_targets [record_www] (map (entry_record example_zone) example_entries)
             = [\<lparr>Type = ''A'', Name = ''www'', Value = ''1.2.3.4'', TTL = 300,
                 Metadata = [''line_index'' \<mapsto> ''0'']\<rparr>]"
    by (simp add: example_records deletion_targets_def matches_def record_www_def)
  have t': "deletion_targets [record_soa] (map (entry_record example_zone) example_entries)
             = [\<lparr>Type = ''SOA'', Name = [], Value = ''ns1 admin 42 ...'', TTL = 86400,
                 Metadata = [''line_index'' \<mapsto> ''1'']\<rparr>]"
    by (simp add: example_records deletion_targets_def matches_def record_soa_def)
  note w = DeleteRecords_serial[OF g, of "[record_www]", unfolded Let_def t]
  note w' = DeleteRecords_serial[OF g, of "[record_soa]", unfolded Let_def t']
  have z: "fst (scan_records [record_www] (map (entry_record example_zone) example_entries)
                  (''0'', [])) = ''0''"
    using w by simp
  have z': "fst (scan_records [record_soa] (map (entry_record example_zone) example_entries)
                  (''0'', [])) = ''42''"
    by (simp add: example_records matches_def record_soa_def third_field_def example_fields)
  have a: "serials (calls (snd (DeleteRecords echo_remote example_provider example_zone
                               [record_www] (example_world 2))))
          = [None, Some (Text ''0'')]"
    using w by (simp add: z serials_def mk_request_def)
  have b: "serials (calls (snd (DeleteRecords echo_remote example_provider example_zone
                               [record_soa] (example_world 2))))
          = [None, Some (Text ''42'')]"
    using w' unfolding z' by (simp add: serials_def mk_request_def)
  from a b show ?thesis by (simp add: t t')
qed

text \<open>
  C1 fails for \<^verbatim>\<open>DeleteRecords\<close>. The zone read has an SOA record whose value has four
  fields, the third being \<^verbatim>\<open>42\<close>. Deleting the A record sends the serial \<^verbatim>\<open>0\<close>;
  appending to the same zone sends \<^verbatim>\<open>42\<close>.
\<close>

theorem DeleteRecords_serial_of_untouched_SOA:
  "fst (GetRecords echo_remote example_provider example_zone (example_world 2))
     = Inr (map (entry_record example_zone) example_entries)
   \<and> map (\<lambda>r. (Type r, Fields (Value r))) (map (entry_record example_zone) example_entries)
       = [(''A'', [''1.2.3.4'']), (''SOA'', [''ns1'', ''admin'', ''42'', ''...''])]
   \<and> serials (calls (snd (DeleteRecords echo_remote example_provider example_zone [record_www]
                            (example_world 2))))
       = [None, Some (Text ''0'')]
   \<and> serials (calls (snd (AppendRecords echo_remote example_provider example_zone [record_www]
                            (example_world 2))))
       = [None, Some (Text ''42'')]"
proof -
  have g: "GetRecords echo_remote example_provider example_zone (example_world 2) =
      (Inr (map (entry_record example_zone) example_entries),
       \<lparr>remote = \<lparr>entries = example_entries, budget = 1\<rparr>,
        calls = [mk_request example_provider ''DNS'' ''parse_zone''
                   [(''zone'', Text example_zone)]],
        sent = [mk_request example_provider ''DNS'' ''parse_zone''
                   [(''zone'', Text example_zone)]]\<rparr>)"
    using echo_GetRecords[of example_provider example_zone example_entries 1]
    by (simp add: example_world_def numeral_2_eq_2)
  have a: "map (\<lambda>r. (Type r, Fields (Value r))) (map (entry_record example_zone) example_entries)
       = [(''A'', [''1.2.3.4'']), (''SOA'', [''ns1'', ''admin'', ''42'', ''...''])]"
    by (simp add: example_records example_fields) (simp add: Fields_def space_width_def flush_def)
  have d: "fst (scan_records [record_www] (map (entry_record example_zone) example_entries)
                  (''0'', [])) = ''0''"
    by (simp add: example_records matches_def record_www_def)
  have b: "serials (calls (snd (DeleteRecords echo_remote example_provider example_zone
                                  [record_www] (example_world 2))))
             = [None, Some (Text ''0'')]"
    by (simp add: DeleteRecords_after_read[OF g] Let_def dial_calls d serials_def mk_request_def
        del: scan_records.simps)
  have e: "current_serial ''0'' (map (entry_record example_zone) example_entries) = ''42''"
    by (simp add: example_records third_field_def example_fields)
  have c: "serials (calls (snd (AppendRecords echo_remote example_provider example_zone
                                  [record_www] (example_world 2))))
             = [None, Some (Text ''42'')]"
    by (simp add: AppendRecords_after_read[OF g] Let_def dial_calls e serials_def mk_request_def)
  from g a b c show ?thesis by simp
qed


subsection \<open>Counting the requests\<close>

lemma AppendRecords_calls:
  "calls (snd (AppendRecords srv p zone rs s)) =
     (case fst (GetRecords srv p zone s) of
        Inl err \<Rightarrow> calls s @ [mk_request p ''DNS'' ''parse_zone'' [(''zone'', Text zone)]]
      | Inr existing \<Rightarrow>
          calls s @
          [mk_request p ''DNS'' ''parse_zone'' [(''zone'', Text zone)],
           mk_request p ''DNS'' ''mass_edit_zone''
             [(''zone'', Text zone), (''serial'', Text (current_serial ''0'' existing)),
              (''add'', AddList (add_list zone rs))]])"
proof (cases "GetRecords srv p zone s")
  case (Pair res s1)
  then have c: "calls s1 = calls s @ [mk_request p ''DNS'' ''parse_zone'' [(''zone'', Text zone)]]"
    using GetRecords_calls[of srv p zone s] by simp
  show ?thesis
  proof (cases res)
    case (Inl e)
    with Pair c show ?thesis by (simp add: AppendRecords_read_fails)
  next
    case (Inr existing)
    with Pair c show ?thesis
      by (simp add: AppendRecords_after_read[of srv p zone s existing s1] Let_def dial_calls)
  qed
qed

lemma DeleteRecords_calls:
  "calls (snd (DeleteRecords srv p zone rs s)) =
     (case fst (GetRecords srv p zone s) of
        Inl err \<Rightarrow> calls s @ [mk_request p ''DNS'' ''parse_zone'' [(''zone'', Text zone)]]
      | Inr existing \<Rightarrow>
          calls s @
          [mk_request p ''DNS'' ''parse_zone'' [(''zone'', Text zone)],
           mk_request p ''DNS'' ''mass_edit_zone''
             [(''zone'', Text zone),
              (''serial'', Text (fst (scan_records rs existing (''0'', [])))),
              (''remove'', RemoveList (snd (scan_records rs existing (''0'', []))))]])"
proof (cases "GetRecords srv p zone s")
  case (Pair res s1)
  then have c: "calls s1 = calls s @ [mk_request p ''DNS'' ''parse_zone'' [(''zone'', Text zone)]]"
    using GetRecords_calls[of srv p zone s] by simp
  show ?thesis
  proof (cases res)
    case (Inl e)
    with Pair c show ?thesis by (simp add: DeleteRecords_read_fails)
  next
    case (Inr existing)
    with Pair c show ?thesis
      by (simp add: DeleteRecords_after_read[of srv p zone s existing s1] Let_def dial_calls)
  qed
qed

lemma AppendRecords_count:
  "length (calls (snd (AppendRecords srv p zone rs s))) =
     length (calls s) + (if isl (fst (GetRecords srv p zone s)) then 1 else 2)"
  by (simp add: AppendRecords_calls split: sum.splits)

lemma DeleteRecords_count:
  "length (calls (snd (DeleteRecords srv p zone rs s))) =
     length (calls s) + (if isl (fst (GetRecords srv p zone s)) then 1 else 2)"
  by (simp add: DeleteRecords_calls split: sum.splits)

lemma DeleteRecords_success_read:
  "fst (DeleteRecords srv p zone rs s) = Inr x \<Longrightarrow> \<not> isl (fst (GetRecords srv p zone s))"
  by (cases "GetRecords srv p zone s") (auto simp add: DeleteRecords_def split: sum.splits)

lemma AppendRecords_success_read:
  "fst (AppendRecords srv p zone rs s) = Inr x \<Longrightarrow> \<not> isl (fst (GetRecords srv p zone s))"
  by (cases "GetRecords srv p zone s") (auto simp add: AppendRecords_def split: sum.splits)

lemma SetRecords_count:
  "length (calls (snd (SetRecords srv p zone rs s))) =
     (case DeleteRecords srv p zone rs s of
        (Inl err, s1) \<Rightarrow> length (calls s) + (if isl (fst (GetRecords srv p zone s)) then 1 else 2)
      | (Inr x, s1) \<Rightarrow>
          length (calls s) + 2 + (if isl (fst (GetRecords srv p zone s1)) then 1 else 2))"
proof (cases "DeleteRecords srv p zone rs s")
  case (Pair res s1)
  then have s1: "s1 = snd (DeleteRecords srv p zone rs s)" by simp
  show ?thesis
  proof (cases res)
    case (Inl e)
    with Pair show ?thesis
      using DeleteRecords_count[of srv p zone rs s] by (simp add: SetRecords_def)
  next
    case (Inr x)
    with Pair have "\<not> isl (fst (GetRecords srv p zone s))"
      using DeleteRecords_success_read[of srv p zone rs s x] by simp
    then have "length (calls s1) = length (calls s) + 2"
      unfolding s1 by (simp add: DeleteRecords_count)
    with Pair Inr show ?thesis
      by (simp add: SetRecords_def AppendRecords_count)
  qed
qed

lemma SetRecords_count_success:
  assumes "fst (SetRecords srv p zone rs s) = Inr x"
  shows "length (calls (snd (SetRecords srv p zone rs s))) = length (calls s) + 4"
proof (cases "DeleteRecords srv p zone rs s")
  case (Pair res s1)
  show ?thesis
  proof (cases res)
    case (Inl e)
    with Pair assms show ?thesis by (simp add: SetRecords_def)
  next
    case (Inr y)
    with Pair assms have "fst (AppendRecords srv p zone rs s1) = Inr x"
      by (simp add: SetRecords_def)
    then have "\<not> isl (fst (GetRecords srv p zone s1))"
      by (rule AppendRecords_success_read)
    with Pair Inr show ?thesis
      by (simp add: SetRecords_count)
  qed
qed

subsection \<open>The echoing remote, step by step\<close>

lemma echo_read:
  assumes "0 < budget (remote s)"
  shows "GetRecords echo_remote p zone s =
     (Inr (map (entry_record zone) (entries (remote s))),
      \<lparr>remote = \<lparr>entries = entries (remote s), budget = budget (remote s) - 1\<rparr>,
       calls = calls s @ [mk_request p ''DNS'' ''parse_zone'' [(''zone'', Text zone)]],
        sent = sent s @ [mk_request p ''DNS'' ''parse_zone'' [(''zone'', Text zone)]]\<rparr>)"
  using assms
  by (simp add: GetRecords_def dial_def Let_def echo_remote_def mk_request_def)

lemma echo_edit:
  assumes "0 < budget (remote s)"
  shows "dial echo_remote p ''DNS'' ''mass_edit_zone'' ps s =
     (Inr (Entries []),
      \<lparr>remote =
         \<lparr>entries =
            filter (\<lambda>e. Itoa (sint (LineIndex e))
                          \<notin> set (removal_of (mk_request p ''DNS'' ''mass_edit_zone'' ps)))
              (entries (remote s))
            @ map (\<lambda>(k, a). stored (of_nat k) a)
                (enumerate (length (entries (remote s)))
                   (additions_of (mk_request p ''DNS'' ''mass_edit_zone'' ps))),
          budget = budget (remote s) - 1\<rparr>,
       calls = calls s @ [mk_request p ''DNS'' ''mass_edit_zone'' ps],
        sent = sent s @ [mk_request p ''DNS'' ''mass_edit_zone'' ps]\<rparr>)"
  using assms
  by (simp add: dial_def Let_def echo_remote_def mk_request_def)




lemma line_numbers:
  "Itoa 0 = ''0''" "Itoa 1 = ''1''" "Itoa 2 = ''2''"
  by (simp_all add: Itoa_def decimal.simps digit_char_def)

lemma example_delete_www:
  assumes "1 < n"
  shows "DeleteRecords echo_remote example_provider example_zone [record_www] (example_world n) =
     (Inr [record_www],
      \<lparr>remote = \<lparr>entries = [example_entries ! 1], budget = n - 2\<rparr>,
       calls =
         [mk_request example_provider ''DNS'' ''parse_zone'' [(''zone'', Text example_zone)],
          mk_request example_provider ''DNS'' ''mass_edit_zone''
            [(''zone'', Text example_zone), (''serial'', Text ''0''),
             (''remove'', RemoveList [''0''])]],
       sent =
         [mk_request example_provider ''DNS'' ''parse_zone'' [(''zone'', Text example_zone)],
          mk_request example_provider ''DNS'' ''mass_edit_zone''
            [(''zone'', Text example_zone), (''serial'', Text ''0''),
             (''remove'', RemoveList [''0''])]]\<rparr>)"
proof -
  have r: "GetRecords echo_remote example_provider example_zone (example_world n) =
     (Inr (map (entry_record example_zone) example_entries),
      \<lparr>remote = \<lparr>entries = example_entries, budget = n - 1\<rparr>,
       calls = [mk_request example_provider ''DNS'' ''parse_zone''
                  [(''zone'', Text example_zone)]],
        sent = [mk_request example_provider ''DNS'' ''parse_zone''
                  [(''zone'', Text example_zone)]]\<rparr>)"
    using assms by (simp add: echo_read example_world_def zone_world_def)
  have sc: "scan_records [record_www] (map (entry_record example_zone) example_entries) (''0'', [])
             = (''0'', [''0''])"
    by (simp add: example_records matches_def record_www_def meta_def)
  have k: "filter (\<lambda>e. Itoa (sint (LineIndex e)) \<notin> set [''0'']) example_entries
             = [example_entries ! 1]"
    by (simp add: example_entries_def line_numbers)
  show ?thesis
    using assms k
    by (simp add: DeleteRecords_def r sc echo_edit removal_of_def additions_of_def
        mk_request_def numeral_2_eq_2 del: scan_records.simps)
qed


lemma example_set_www_4:
  "fst (SetRecords echo_remote example_provider example_zone [record_www] (example_world 4))
     = Inr [record_www]"
  by (simp add: SetRecords_def example_delete_www AppendRecords_def echo_read echo_edit)


subsection \<open>Counting the network calls\<close>

lemma dial_sent_le: "length (sent (snd (dial srv p m f ps s))) \<le> length (sent s) + 1"
  by (simp add: dial_sent)

lemma dial_sent_success:
  "fst (dial srv p m f ps s) = Inr dat \<Longrightarrow>
   sent (snd (dial srv p m f ps s)) = sent s @ [mk_request p m f ps]"
  using dial_succeeds_sent[of srv p m f ps s dat] by (simp add: dial_sent)

lemma GetRecords_success_sent:
  assumes "\<not> isl (fst (GetRecords srv p zone s))"
  shows "sent (snd (GetRecords srv p zone s))
           = sent s @ [mk_request p ''DNS'' ''parse_zone'' [(''zone'', Text zone)]]"
proof -
  from assms obtain dat where "fst (dial srv p ''DNS'' ''parse_zone'' [(''zone'', Text zone)] s) = Inr dat"
    by (cases "fst (dial srv p ''DNS'' ''parse_zone'' [(''zone'', Text zone)] s)")
       (simp_all add: GetRecords_result)
  then show ?thesis
    by (simp add: GetRecords_world dial_sent_success)
qed

lemma GetRecords_sent_le:
  "length (sent (snd (GetRecords srv p zone s))) \<le> length (sent s) + 1"
  by (simp add: GetRecords_sent)

lemma AppendRecords_sent:
  "sent (snd (AppendRecords srv p zone rs s)) =
     (case GetRecords srv p zone s of
        (Inl err, s1) \<Rightarrow> sent s1
      | (Inr existing, s1) \<Rightarrow>
          sent (snd (dial srv p ''DNS'' ''mass_edit_zone''
                       [(''zone'', Text zone), (''serial'', Text (current_serial ''0'' existing)),
                        (''add'', AddList (add_list zone rs))] s1)))"
  by (simp add: AppendRecords_def Let_def split: prod.splits sum.splits)

lemma DeleteRecords_sent:
  "sent (snd (DeleteRecords srv p zone rs s)) =
     (case GetRecords srv p zone s of
        (Inl err, s1) \<Rightarrow> sent s1
      | (Inr existing, s1) \<Rightarrow>
          sent (snd (dial srv p ''DNS'' ''mass_edit_zone''
                       [(''zone'', Text zone),
                        (''serial'', Text (fst (scan_records rs existing (''0'', [])))),
                        (''remove'', RemoveList (snd (scan_records rs existing (''0'', []))))]
                       s1)))"
  by (simp add: DeleteRecords_def Let_def split: prod.splits sum.splits)

lemma AppendRecords_sent_le:
  "length (sent (snd (AppendRecords srv p zone rs s))) \<le> length (sent s) + 2"
proof (cases "GetRecords srv p zone s")
  case (Pair res s1)
  have "length (sent (snd (GetRecords srv p zone s))) \<le> length (sent s) + 1"
    by (rule GetRecords_sent_le)
  with Pair have l: "length (sent s1) \<le> length (sent s) + 1" by simp
  show ?thesis
  proof (cases res)
    case (Inl e)
    with Pair l show ?thesis by (simp add: AppendRecords_sent)
  next
    case (Inr existing)
    have "length (sent (snd (dial srv p ''DNS'' ''mass_edit_zone''
                       [(''zone'', Text zone), (''serial'', Text (current_serial ''0'' existing)),
                        (''add'', AddList (add_list zone rs))] s1))) \<le> length (sent s1) + 1"
      by (rule dial_sent_le)
    with Pair Inr l show ?thesis by (simp add: AppendRecords_sent)
  qed
qed

lemma DeleteRecords_sent_le:
  "length (sent (snd (DeleteRecords srv p zone rs s))) \<le> length (sent s) + 2"
proof (cases "GetRecords srv p zone s")
  case (Pair res s1)
  have "length (sent (snd (GetRecords srv p zone s))) \<le> length (sent s) + 1"
    by (rule GetRecords_sent_le)
  with Pair have l: "length (sent s1) \<le> length (sent s) + 1" by simp
  show ?thesis
  proof (cases res)
    case (Inl e)
    with Pair l show ?thesis by (simp add: DeleteRecords_sent)
  next
    case (Inr existing)
    have "length (sent (snd (dial srv p ''DNS'' ''mass_edit_zone''
                       [(''zone'', Text zone),
                        (''serial'', Text (fst (scan_records rs existing (''0'', [])))),
                        (''remove'', RemoveList (snd (scan_records rs existing (''0'', []))))]
                       s1))) \<le> length (sent s1) + 1"
      by (rule dial_sent_le)
    with Pair Inr l show ?thesis by (simp add: DeleteRecords_sent)
  qed
qed

lemma AppendRecords_read_fails_sent:
  "isl (fst (GetRecords srv p zone s)) \<Longrightarrow>
   sent (snd (AppendRecords srv p zone rs s)) = sent (snd (GetRecords srv p zone s))"
  by (cases "GetRecords srv p zone s") (auto simp add: AppendRecords_sent split: sum.splits)

lemma DeleteRecords_read_fails_sent:
  "isl (fst (GetRecords srv p zone s)) \<Longrightarrow>
   sent (snd (DeleteRecords srv p zone rs s)) = sent (snd (GetRecords srv p zone s))"
  by (cases "GetRecords srv p zone s") (auto simp add: DeleteRecords_sent split: sum.splits)

lemma AppendRecords_success_sent:
  assumes "\<not> isl (fst (AppendRecords srv p zone rs s))"
  shows "map rfunction (drop (length (sent s)) (sent (snd (AppendRecords srv p zone rs s))))
           = [''parse_zone'', ''mass_edit_zone'']"
proof (cases "GetRecords srv p zone s")
  case (Pair res s1)
  show ?thesis
  proof (cases res)
    case (Inl e)
    with Pair assms show ?thesis by (simp add: AppendRecords_read_fails)
  next
    case (Inr existing)
    let ?d = "dial srv p ''DNS'' ''mass_edit_zone''
                [(''zone'', Text zone), (''serial'', Text (current_serial ''0'' existing)),
                 (''add'', AddList (add_list zone rs))] s1"
    from Pair Inr have "\<not> isl (fst (GetRecords srv p zone s))" by simp
    then have "sent (snd (GetRecords srv p zone s))
                 = sent s @ [mk_request p ''DNS'' ''parse_zone'' [(''zone'', Text zone)]]"
      by (rule GetRecords_success_sent)
    with Pair have s1: "sent s1 = sent s @ [mk_request p ''DNS'' ''parse_zone'' [(''zone'', Text zone)]]"
      by simp
    from Pair Inr assms obtain dat where "fst ?d = Inr dat"
      by (cases "fst ?d") (simp_all add: AppendRecords_after_read[of srv p zone s existing s1] Let_def)
    then have "sent (snd ?d) = sent s1 @ [mk_request p ''DNS'' ''mass_edit_zone''
                [(''zone'', Text zone), (''serial'', Text (current_serial ''0'' existing)),
                 (''add'', AddList (add_list zone rs))]]"
      by (rule dial_sent_success)
    with Pair Inr s1 show ?thesis
      by (simp add: AppendRecords_sent mk_request_def)
  qed
qed

lemma DeleteRecords_success_sent:
  assumes "\<not> isl (fst (DeleteRecords srv p zone rs s))"
  shows "map rfunction (drop (length (sent s)) (sent (snd (DeleteRecords srv p zone rs s))))
           = [''parse_zone'', ''mass_edit_zone'']"
proof (cases "GetRecords srv p zone s")
  case (Pair res s1)
  show ?thesis
  proof (cases res)
    case (Inl e)
    with Pair assms show ?thesis by (simp add: DeleteRecords_read_fails)
  next
    case (Inr existing)
    let ?d = "dial srv p ''DNS'' ''mass_edit_zone''
                [(''zone'', Text zone),
                 (''serial'', Text (fst (scan_records rs existing (''0'', [])))),
                 (''remove'', RemoveList (snd (scan_records rs existing (''0'', []))))] s1"
    from Pair Inr have "\<not> isl (fst (GetRecords srv p zone s))" by simp
    then have "sent (snd (GetRecords srv p zone s))
                 = sent s @ [mk_request p ''DNS'' ''parse_zone'' [(''zone'', Text zone)]]"
      by (rule GetRecords_success_sent)
    with Pair have s1: "sent s1 = sent s @ [mk_request p ''DNS'' ''parse_zone'' [(''zone'', Text zone)]]"
      by simp
    from Pair Inr assms obtain dat where "fst ?d = Inr dat"
      by (cases "fst ?d") (simp_all add: DeleteRecords_after_read[of srv p zone s existing s1] Let_def)
    then have "sent (snd ?d) = sent s1 @ [mk_request p ''DNS'' ''mass_edit_zone''
                [(''zone'', Text zone),
                 (''serial'', Text (fst (scan_records rs existing (''0'', [])))),
                 (''remove'', RemoveList (snd (scan_records rs existing (''0'', []))))]]"
      by (rule dial_sent_success)
    with Pair Inr s1 show ?thesis
      by (simp add: DeleteRecords_sent mk_request_def)
  qed
qed

lemma length_from_drop:
  "map f (drop n xs) = [a, b] \<Longrightarrow> length xs = n + 2"
proof -
  assume "map f (drop n xs) = [a, b]"
  then have "length (drop n xs) = 2"
    by (metis length_map length_Cons list.size(3) numeral_2_eq_2)
  then show ?thesis by simp
qed

lemma SetRecords_sent_le:
  "length (sent (snd (SetRecords srv p zone rs s))) \<le> length (sent s) + 4"
proof (cases "DeleteRecords srv p zone rs s")
  case (Pair res s1)
  have "length (sent (snd (DeleteRecords srv p zone rs s))) \<le> length (sent s) + 2"
    by (rule DeleteRecords_sent_le)
  with Pair have l: "length (sent s1) \<le> length (sent s) + 2" by simp
  show ?thesis
  proof (cases res)
    case (Inl e)
    with Pair l show ?thesis by (simp add: SetRecords_def)
  next
    case (Inr x)
    have "length (sent (snd (AppendRecords srv p zone rs s1))) \<le> length (sent s1) + 2"
      by (rule AppendRecords_sent_le)
    with Pair Inr l show ?thesis by (simp add: SetRecords_def)
  qed
qed

lemma SetRecords_sent_success:
  assumes "\<not> isl (fst (SetRecords srv p zone rs s))"
  shows "length (sent (snd (SetRecords srv p zone rs s))) = length (sent s) + 4"
proof (cases "DeleteRecords srv p zone rs s")
  case (Pair res s1)
  show ?thesis
  proof (cases res)
    case (Inl e)
    with Pair assms show ?thesis by (simp add: SetRecords_def)
  next
    case (Inr x)
    with Pair have "\<not> isl (fst (DeleteRecords srv p zone rs s))" by simp
    then have "length (sent (snd (DeleteRecords srv p zone rs s))) = length (sent s) + 2"
      by (rule length_from_drop[OF DeleteRecords_success_sent])
    with Pair have l: "length (sent s1) = length (sent s) + 2" by simp
    from Pair Inr assms have "\<not> isl (fst (AppendRecords srv p zone rs s1))"
      by (simp add: SetRecords_def)
    then have "length (sent (snd (AppendRecords srv p zone rs s1))) = length (sent s1) + 2"
      by (rule length_from_drop[OF AppendRecords_success_sent])
    with Pair Inr l show ?thesis by (simp add: SetRecords_def)
  qed
qed






text \<open>
  C10, as amended. A network call is a request handed to \<^verbatim>\<open>http.DefaultClient.Do\<close>.
  \<^verbatim>\<open>GetRecords\<close> makes at most one: exactly one when its request can be built, none
  otherwise. \<^verbatim>\<open>AppendRecords\<close> and \<^verbatim>\<open>DeleteRecords\<close> make at most two: none beyond
  those of the read when the read fails, at least one when the read succeeds, and
  exactly two, the read and then the mass edit, whenever they succeed. \<^verbatim>\<open>SetRecords\<close>
  makes at most four, and exactly four whenever it succeeds.
\<close>

theorem requests_per_operation:
  "length (sent (snd (GetRecords srv p zone s))) \<le> length (sent s) + 1
   \<and> (fst (srv (mk_request p ''DNS'' ''parse_zone'' [(''zone'', Text zone)]) (remote s)) \<noteq> Unbuilt
        \<longrightarrow> sent (snd (GetRecords srv p zone s))
              = sent s @ [mk_request p ''DNS'' ''parse_zone'' [(''zone'', Text zone)]])
   \<and> (fst (srv (mk_request p ''DNS'' ''parse_zone'' [(''zone'', Text zone)]) (remote s)) = Unbuilt
        \<longrightarrow> sent (snd (GetRecords srv p zone s)) = sent s)
   \<and> length (sent (snd (AppendRecords srv p zone rs s))) \<le> length (sent s) + 2
   \<and> length (sent (snd (DeleteRecords srv p zone rs s))) \<le> length (sent s) + 2
   \<and> (isl (fst (GetRecords srv p zone s))
        \<longrightarrow> sent (snd (AppendRecords srv p zone rs s)) = sent (snd (GetRecords srv p zone s))
            \<and> sent (snd (DeleteRecords srv p zone rs s)) = sent (snd (GetRecords srv p zone s)))
   \<and> (\<not> isl (fst (GetRecords srv p zone s))
        \<longrightarrow> length (sent s) + 1 \<le> length (sent (snd (AppendRecords srv p zone rs s)))
            \<and> length (sent s) + 1 \<le> length (sent (snd (DeleteRecords srv p zone rs s))))
   \<and> (\<not> isl (fst (AppendRecords srv p zone rs s))
        \<longrightarrow> map rfunction (drop (length (sent s)) (sent (snd (AppendRecords srv p zone rs s))))
              = [''parse_zone'', ''mass_edit_zone''])
   \<and> (\<not> isl (fst (DeleteRecords srv p zone rs s))
        \<longrightarrow> map rfunction (drop (length (sent s)) (sent (snd (DeleteRecords srv p zone rs s))))
              = [''parse_zone'', ''mass_edit_zone''])
   \<and> length (sent (snd (SetRecords srv p zone rs s))) \<le> length (sent s) + 4
   \<and> (\<not> isl (fst (SetRecords srv p zone rs s))
        \<longrightarrow> length (sent (snd (SetRecords srv p zone rs s))) = length (sent s) + 4)"
proof -
  have lower: "length (sent s) + 1 \<le> length (sent (snd (AppendRecords srv p zone rs s)))
             \<and> length (sent s) + 1 \<le> length (sent (snd (DeleteRecords srv p zone rs s)))"
    if ok: "\<not> isl (fst (GetRecords srv p zone s))"
  proof (cases "GetRecords srv p zone s")
    case (Pair res s1)
    from ok have "sent (snd (GetRecords srv p zone s))
                    = sent s @ [mk_request p ''DNS'' ''parse_zone'' [(''zone'', Text zone)]]"
      by (rule GetRecords_success_sent)
    with Pair have s1: "length (sent s1) = length (sent s) + 1" by simp
    from ok Pair obtain existing where res: "res = Inr existing"
      by (cases res) simp_all
    have "length (sent s1) \<le> length (sent (snd (dial srv p m f ps s1)))" for m f ps
      by (simp add: dial_sent)
    with Pair res s1 show ?thesis
      by (simp add: AppendRecords_sent DeleteRecords_sent)
  qed
  show ?thesis
    using lower GetRecords_sent_le[of srv p zone s] AppendRecords_sent_le[of srv p zone rs s]
      DeleteRecords_sent_le[of srv p zone rs s] SetRecords_sent_le[of srv p zone rs s]
      SetRecords_sent_success[of srv p zone rs s]
    by (simp add: GetRecords_sent AppendRecords_read_fails_sent DeleteRecords_read_fails_sent
        AppendRecords_success_sent DeleteRecords_success_sent)
qed

theorem requests_per_operation_witness:
  "length (sent (snd (GetRecords echo_remote example_provider example_zone (example_world 4)))) = 1
   \<and> map rfunction (sent (snd (AppendRecords echo_remote example_provider example_zone
                                  [record_www] (example_world 4))))
       = [''parse_zone'', ''mass_edit_zone'']
   \<and> map rfunction (sent (snd (DeleteRecords echo_remote example_provider example_zone
                                  [record_www] (example_world 4))))
       = [''parse_zone'', ''mass_edit_zone'']
   \<and> length (sent (snd (SetRecords echo_remote example_provider example_zone [record_www]
                           (example_world 4)))) = 4
   \<and> sent (snd (GetRecords picky_remote broken_provider example_zone (example_world 4))) = []
   \<and> sent (snd (AppendRecords picky_remote broken_provider example_zone [record_www]
                   (example_world 4))) = []
   \<and> sent (snd (DeleteRecords picky_remote broken_provider example_zone [record_www]
                   (example_world 4))) = []"
proof -
  let ?read = "mk_request example_provider ''DNS'' ''parse_zone'' [(''zone'', Text example_zone)]"
  let ?bad = "mk_request broken_provider ''DNS'' ''parse_zone'' [(''zone'', Text example_zone)]"
  have c: "sent (example_world 4) = []" "remote (example_world 4)
             = \<lparr>entries = example_entries, budget = 4\<rparr>"
    by (simp_all add: example_world_def zone_world_def)
  have built: "fst (echo_remote ?read (remote (example_world 4))) \<noteq> Unbuilt"
    by (simp add: c echo_remote_def mk_request_def)
  have unbuilt: "fst (picky_remote ?bad (remote (example_world 4))) = Unbuilt"
    by (simp add: picky_remote_def mk_request_def broken_provider_def TrimRight_def)
  have a: "\<not> isl (fst (AppendRecords echo_remote example_provider example_zone [record_www]
                          (example_world 4)))"
    by (simp add: AppendRecords_def echo_read echo_edit example_world_def zone_world_def)
  have d: "\<not> isl (fst (DeleteRecords echo_remote example_provider example_zone [record_www]
                          (example_world 4)))"
    by (simp add: example_delete_www)
  have st: "\<not> isl (fst (SetRecords echo_remote example_provider example_zone [record_www]
                          (example_world 4)))"
    by (simp add: example_set_www_4)
  have bad_read: "isl (fst (GetRecords picky_remote broken_provider example_zone (example_world 4)))"
    using unbuilt by (simp add: GetRecords_result dial_result)
  note good = requests_per_operation[of echo_remote example_provider example_zone
                "example_world 4" "[record_www]"]
  note bad = requests_per_operation[of picky_remote broken_provider example_zone
                "example_world 4" "[record_www]"]
  from good built a d st
  have 1: "length (sent (snd (GetRecords echo_remote example_provider example_zone
                                (example_world 4)))) = 1"
    and 2: "map rfunction (sent (snd (AppendRecords echo_remote example_provider example_zone
                                  [record_www] (example_world 4))))
              = [''parse_zone'', ''mass_edit_zone'']"
    and 3: "map rfunction (sent (snd (DeleteRecords echo_remote example_provider example_zone
                                  [record_www] (example_world 4))))
              = [''parse_zone'', ''mass_edit_zone'']"
    and 4: "length (sent (snd (SetRecords echo_remote example_provider example_zone [record_www]
                           (example_world 4)))) = 4"
    by (simp_all add: c)
  from bad unbuilt bad_read
  have 5: "sent (snd (GetRecords picky_remote broken_provider example_zone (example_world 4))) = []"
    and 6: "sent (snd (AppendRecords picky_remote broken_provider example_zone [record_www]
                   (example_world 4))) = []"
    and 7: "sent (snd (DeleteRecords picky_remote broken_provider example_zone [record_www]
                   (example_world 4))) = []"
    by (simp_all add: c)
  from 1 2 3 4 5 6 7 show ?thesis by blast
qed

text \<open>
  C10 as stated fails for \<^verbatim>\<open>SetRecords\<close>: on the example zone, with a remote that
  answers every request, replacing the record \<^verbatim>\<open>www\<close> makes four network calls, not at
  most two.
\<close>

theorem SetRecords_four_requests_counterexample:
  "\<not> length (sent (snd (SetRecords echo_remote example_provider example_zone [record_www]
                          (example_world 4)))) \<le> 2"
proof -
  have "\<not> isl (fst (SetRecords echo_remote example_provider example_zone [record_www]
                       (example_world 4)))"
    by (simp add: example_set_www_4)
  then have "length (sent (snd (SetRecords echo_remote example_provider example_zone
                                  [record_www] (example_world 4))))
          = length (sent (example_world 4)) + 4"
    by (rule SetRecords_sent_success)
  then show ?thesis by simp
qed

end
